theory Spec2Isabelle
  imports Main
begin

section \<open>LRU replacer (lru\_replacer.cpp)\<close>

text \<open>
  The replacer keeps \<open>usedFrames\<close>, a \<open>std::list\<close> of frame ids. The head of the HOL
  list is the front of the C++ list (most recently unpinned), the last element is
  the back (the eviction victim).
\<close>

type_synonym frame_id_t = nat
type_synonym page_id_t = int

type_synonym LRUReplacer = "frame_id_t list"

text \<open>\<open>Victim\<close>: \<open>None\<close> is the C++ result \<open>false\<close> (the out parameter is not written),
  \<open>Some f\<close> is \<open>true\<close> with \<open>*frame_id = f\<close>.\<close>

definition Victim :: "LRUReplacer \<Rightarrow> frame_id_t option \<times> LRUReplacer" where
  "Victim usedFrames =
     (if usedFrames = [] then (None, usedFrames)
      else (Some (last usedFrames), butlast usedFrames))"

text \<open>\<open>Pin\<close>: \<open>std::find\<close> gives the first occurrence, \<open>erase\<close> removes that one.\<close>

definition Pin :: "frame_id_t \<Rightarrow> LRUReplacer \<Rightarrow> LRUReplacer" where
  "Pin frame_id usedFrames =
     (if frame_id \<notin> set usedFrames then usedFrames else remove1 frame_id usedFrames)"

definition Unpin :: "frame_id_t \<Rightarrow> LRUReplacer \<Rightarrow> LRUReplacer" where
  "Unpin frame_id usedFrames =
     (if frame_id \<in> set usedFrames then usedFrames else frame_id # usedFrames)"

definition Size :: "LRUReplacer \<Rightarrow> nat" where
  "Size usedFrames = length usedFrames"

text \<open>Unpinning a sequence of frames in order, and calling \<open>Victim\<close> \<open>n\<close> times in a row
  (collecting every result).\<close>

fun unpin_seq :: "frame_id_t list \<Rightarrow> LRUReplacer \<Rightarrow> LRUReplacer" where
  "unpin_seq [] r = r"
| "unpin_seq (f # fs) r = unpin_seq fs (Unpin f r)"

fun victim_seq :: "nat \<Rightarrow> LRUReplacer \<Rightarrow> frame_id_t option list \<times> LRUReplacer" where
  "victim_seq 0 r = ([], r)"
| "victim_seq (Suc n) r =
     (case Victim r of (res, r') \<Rightarrow>
        (case victim_seq n r' of (rs, r'') \<Rightarrow> (res # rs, r'')))"

section \<open>Pages, frames and the disk manager\<close>

text \<open>
  The bytes of a page are only ever read through the B+ tree page layouts and the header
  page layout, so a page's \<open>data\<close> is modelled as the record of the fields of those
  layouts: the common B+ tree page header (\<open>page_type_\<close>, \<open>size_\<close>, \<open>max_size_\<close>,
  \<open>parent_page_id_\<close>, \<open>page_id_\<close>), the leaf's \<open>next_page_id_\<close>, the entry array,
  and the records of the header page. \<open>ResetMemory\<close> zeroes all of them.
  Keys and values (\<open>GenericKey\<close>, \<open>RID\<close>, child page ids) are integers, compared
  by the usual order.
\<close>

definition INVALID_PAGE_ID :: page_id_t where
  "INVALID_PAGE_ID = -1"

definition HEADER_PAGE_ID :: page_id_t where
  "HEADER_PAGE_ID = 0"

datatype IndexPageType = INVALID_INDEX_PAGE | LEAF_PAGE | INTERNAL_PAGE

type_synonym MappingType = "int \<times> int"

record page_data =
  page_type :: IndexPageType
  cur_size :: int
  max_size :: int
  parent_page_id :: page_id_t
  tree_page_id :: page_id_t
  next_page_id :: page_id_t
  array :: "MappingType list"
  header_records :: "(string \<times> page_id_t) list"

definition zeroed :: page_data where
  "zeroed = \<lparr> page_type = INVALID_INDEX_PAGE, cur_size = 0, max_size = 0,
              parent_page_id = 0, tree_page_id = 0, next_page_id = 0,
              array = [], header_records = [] \<rparr>"



definition wrap_int32 :: "int \<Rightarrow> int" where
  "wrap_int32 x = (x + 2147483648) mod 4294967296 - 2147483648"

record Page =
  data :: page_data
  page_id :: page_id_t
  pin_count :: int
  is_dirty :: bool

text \<open>Modelled from the spec: the constructor of \<open>Page\<close> (its header is not part of the
  sources at hand); a new frame is empty: no page, not pinned, not dirty, zeroed
  bytes.\<close>

definition new_Page :: Page where
  "new_Page = \<lparr> data = zeroed, page_id = INVALID_PAGE_ID, pin_count = 0, is_dirty = False \<rparr>"

text \<open>Modelled from the spec: the \<open>DiskManager\<close> (an external collaborator, section 6 of
  the specification). It stores page images, hands out increasing fresh page ids, and
  deallocation is bookkeeping only. Every call is recorded in \<open>disk_log\<close>, the newest
  call first, so that theorems can speak about the I/O an operation performs.\<close>

datatype disk_call =
    WritePageCall page_id_t page_data
  | ReadPageCall page_id_t
  | AllocatePageCall page_id_t
  | DeallocatePageCall page_id_t

record DiskManager =
  disk_pages :: "page_id_t \<Rightarrow> page_data"
  next_alloc :: page_id_t
  disk_log :: "disk_call list"

definition WritePage :: "page_id_t \<Rightarrow> page_data \<Rightarrow> DiskManager \<Rightarrow> DiskManager" where
  "WritePage pid d dm =
     dm\<lparr> disk_pages := (disk_pages dm)(pid := d), disk_log := WritePageCall pid d # disk_log dm \<rparr>"

definition ReadPage :: "page_id_t \<Rightarrow> DiskManager \<Rightarrow> page_data \<times> DiskManager" where
  "ReadPage pid dm = (disk_pages dm pid, dm\<lparr> disk_log := ReadPageCall pid # disk_log dm \<rparr>)"

definition AllocatePage :: "DiskManager \<Rightarrow> page_id_t \<times> DiskManager" where
  "AllocatePage dm =
     (next_alloc dm,
      dm\<lparr> next_alloc := next_alloc dm + 1, disk_log := AllocatePageCall (next_alloc dm) # disk_log dm \<rparr>)"

definition DeallocatePage :: "page_id_t \<Rightarrow> DiskManager \<Rightarrow> DiskManager" where
  "DeallocatePage pid dm = dm\<lparr> disk_log := DeallocatePageCall pid # disk_log dm \<rparr>"

definition new_DiskManager :: DiskManager where
  "new_DiskManager = \<lparr> disk_pages = (\<lambda>_. zeroed), next_alloc = 0, disk_log = [] \<rparr>"

section \<open>Buffer pool manager (buffer\_pool\_manager.cpp)\<close>

text \<open>
  \<open>pages_\<close> is the frame array, \<open>page_table_\<close> the \<open>std::unordered_map\<close> from page ids
  to frame ids, \<open>free_list_\<close> a \<open>std::list\<close> whose back is the last list element.
  A \<open>Page *\<close> returned by the pool is the frame id, \<open>None\<close> is \<open>nullptr\<close>.
\<close>

record BufferPoolManager =
  pool_size :: nat
  pages :: "Page list"
  page_table :: "page_id_t \<rightharpoonup> frame_id_t"
  replacer :: LRUReplacer
  free_list :: "frame_id_t list"
  disk_manager :: DiskManager

definition new_BufferPoolManager :: "nat \<Rightarrow> DiskManager \<Rightarrow> BufferPoolManager" where
  "new_BufferPoolManager n dm =
     \<lparr> pool_size = n, pages = replicate n new_Page, page_table = Map.empty,
       replacer = [], free_list = [0 ..< n], disk_manager = dm \<rparr>"

text \<open>Steps 1.2 and 2 of \<open>FetchPageImpl\<close> and \<open>NewPageImpl\<close> (the same text in both):
  take a frame from the free list if there is one, else a victim of the replacer,
  written back when dirty. \<open>None\<close> is the path that returns \<open>nullptr\<close>.\<close>

definition find_replacement :: "BufferPoolManager \<Rightarrow> frame_id_t option \<times> BufferPoolManager" where
  "find_replacement b =
     (if free_list b = [] then
        (case Victim (replacer b) of
           (None, r) \<Rightarrow> (None, b\<lparr> replacer := r \<rparr>)
         | (Some frame, r) \<Rightarrow>
             (Some frame,
              if is_dirty (pages b ! frame)
              then b\<lparr> replacer := r,
                     disk_manager := WritePage (page_id (pages b ! frame)) (data (pages b ! frame))
                                       (disk_manager b) \<rparr>
              else b\<lparr> replacer := r \<rparr>))
      else (Some (last (free_list b)), b\<lparr> free_list := butlast (free_list b) \<rparr>))"

text \<open>Step 3: delete the replaced page from the page table, insert the new one.\<close>

definition replace_in_table :: "frame_id_t \<Rightarrow> page_id_t \<Rightarrow> BufferPoolManager \<Rightarrow> BufferPoolManager" where
  "replace_in_table frame pid b =
     (let old = page_id (pages b ! frame);
          t = (if page_table b old \<noteq> None then (page_table b)(old := None) else page_table b)
      in b\<lparr> page_table := t(pid \<mapsto> frame) \<rparr>)"

definition FetchPageImpl :: "page_id_t \<Rightarrow> BufferPoolManager \<Rightarrow> frame_id_t option \<times> BufferPoolManager" where
  "FetchPageImpl pid b =
     (case page_table b pid of
        Some frameId \<Rightarrow>
          (Some frameId,
           b\<lparr> replacer := Pin frameId (replacer b),
              pages := (pages b)[frameId := (pages b ! frameId)
                          \<lparr> pin_count := wrap_int32 (pin_count (pages b ! frameId) + 1) \<rparr>] \<rparr>)
      | None \<Rightarrow>
          (case find_replacement b of
             (None, b1) \<Rightarrow> (None, b1)
           | (Some frame, b1) \<Rightarrow>
               (let b2 = replace_in_table frame pid b1;
                    (bytes, dm) = ReadPage pid (disk_manager b2)
                in (Some frame,
                    b2\<lparr> pages := (pages b2)[frame :=
                                  \<lparr> data = bytes, page_id = pid, pin_count = 1, is_dirty = False \<rparr>],
                        replacer := Pin frame (replacer b2),
                        disk_manager := dm \<rparr>))))"

definition UnpinPageImpl :: "page_id_t \<Rightarrow> bool \<Rightarrow> BufferPoolManager \<Rightarrow> bool \<times> BufferPoolManager" where
  "UnpinPageImpl pid dirty b =
     (case page_table b pid of
        None \<Rightarrow> (False, b)
      | Some f \<Rightarrow>
          (let page = pages b ! f;
               (page1, r1) =
                  (if pin_count page > 0 then
                     (page\<lparr> pin_count := pin_count page - 1 \<rparr>,
                      if pin_count page - 1 = 0 then Unpin f (replacer b) else replacer b)
                   else (page, replacer b));
               page2 = page1\<lparr> is_dirty := (is_dirty page1 \<or> dirty) \<rparr>
           in (True, b\<lparr> pages := (pages b)[f := page2], replacer := r1 \<rparr>)))"

definition FlushPageImpl :: "page_id_t \<Rightarrow> BufferPoolManager \<Rightarrow> bool \<times> BufferPoolManager" where
  "FlushPageImpl pid b =
     (case page_table b pid of
        None \<Rightarrow> (False, b)
      | Some frameId \<Rightarrow>
          (if pid = INVALID_PAGE_ID then (False, b)
           else (True,
                 b\<lparr> disk_manager := WritePage pid (data (pages b ! frameId)) (disk_manager b),
                    pages := (pages b)[frameId := (pages b ! frameId)\<lparr> is_dirty := False \<rparr>] \<rparr>)))"

text \<open>\<open>NewPageImpl\<close> returns the frame (or \<open>nullptr\<close>), the value left in the out
  parameter \<open>*page_id\<close>, and the new state.\<close>

definition NewPageImpl :: "BufferPoolManager \<Rightarrow> frame_id_t option \<times> page_id_t \<times> BufferPoolManager" where
  "NewPageImpl b =
     (case find_replacement b of
        (None, b1) \<Rightarrow> (None, INVALID_PAGE_ID, b1)
      | (Some frame, b1) \<Rightarrow>
          (let (newPID, dm) = AllocatePage (disk_manager b1);
               b2 = replace_in_table frame newPID (b1\<lparr> disk_manager := dm \<rparr>)
           in (Some frame, newPID,
               b2\<lparr> pages := (pages b2)[frame :=
                             \<lparr> data = zeroed, page_id = newPID, pin_count = 1, is_dirty = False \<rparr>],
                   replacer := Pin frame (replacer b2) \<rparr>)))"

definition DeletePageImpl :: "page_id_t \<Rightarrow> BufferPoolManager \<Rightarrow> bool \<times> BufferPoolManager" where
  "DeletePageImpl pid b =
     (if pid = INVALID_PAGE_ID \<or> page_table b pid = None then (True, b)
      else
        (let frameId = the (page_table b pid);
             page = pages b ! frameId
         in if pin_count page > 0 then (False, b)
            else
              (let dm1 = (if is_dirty page then WritePage (page_id page) (data page) (disk_manager b)
                          else disk_manager b);
                   dm2 = DeallocatePage pid dm1
               in (True,
                   b\<lparr> page_table := (page_table b)(pid := None),
                      disk_manager := dm2,
                      replacer := Pin frameId (replacer b),
                      pages := (pages b)[frameId :=
                                 \<lparr> data = zeroed, page_id = INVALID_PAGE_ID, pin_count = 0,
                                   is_dirty = False \<rparr>],
                      free_list := free_list b @ [frameId] \<rparr>))))"

text \<open>\<open>FlushAllPagesImpl\<close>: the loop over the frames \<open>fid = 0 .. pool_size - 1\<close>.\<close>

fun flush_frames :: "frame_id_t list \<Rightarrow> BufferPoolManager \<Rightarrow> BufferPoolManager" where
  "flush_frames [] b = b"
| "flush_frames (fid # fids) b = flush_frames fids (snd (FlushPageImpl (page_id (pages b ! fid)) b))"

definition FlushAllPagesImpl :: "BufferPoolManager \<Rightarrow> BufferPoolManager" where
  "FlushAllPagesImpl b = flush_frames [0 ..< pool_size b] b"

section \<open>Reachable states of the buffer pool\<close>

text \<open>The calls a client can make. \<open>WriteData\<close> is a client writing the bytes of a
  frame through the \<open>Page *\<close> it holds; it touches no metadata.\<close>

datatype bpm_op =
    FetchPage page_id_t
  | UnpinPage page_id_t bool
  | FlushPage page_id_t
  | NewPage
  | DeletePage page_id_t
  | FlushAllPages
  | WriteData frame_id_t page_data

fun apply_op :: "bpm_op \<Rightarrow> BufferPoolManager \<Rightarrow> BufferPoolManager" where
  "apply_op (FetchPage p) b = snd (FetchPageImpl p b)"
| "apply_op (UnpinPage p d) b = snd (UnpinPageImpl p d b)"
| "apply_op (FlushPage p) b = snd (FlushPageImpl p b)"
| "apply_op NewPage b = snd (snd (NewPageImpl b))"
| "apply_op (DeletePage p) b = snd (DeletePageImpl p b)"
| "apply_op FlushAllPages b = FlushAllPagesImpl b"
| "apply_op (WriteData f d) b = b\<lparr> pages := (pages b)[f := (pages b ! f)\<lparr> data := d \<rparr>] \<rparr>"

inductive reachable :: "BufferPoolManager \<Rightarrow> bool" where
  init: "reachable (new_BufferPoolManager n dm)"
| step: "reachable b \<Longrightarrow> reachable (apply_op op b)"


text \<open>The invariant of the pool's metadata, which holds whatever the pin counts have
  wrapped to: frame ids are in range, free frames and replacer candidates are unpinned,
  a free frame holds no page, and the page table points at frames that hold the page and
  are not free.\<close>

definition bpm_inv :: "BufferPoolManager \<Rightarrow> bool" where
  "bpm_inv b \<longleftrightarrow>
     length (pages b) = pool_size b
   \<and> distinct (free_list b)
   \<and> (\<forall>f \<in> set (free_list b). f < pool_size b \<and> pin_count (pages b ! f) = 0
          \<and> page_id (pages b ! f) = INVALID_PAGE_ID \<and> \<not> is_dirty (pages b ! f))
   \<and> distinct (replacer b)
   \<and> (\<forall>f \<in> set (replacer b). f < pool_size b \<and> pin_count (pages b ! f) = 0)
   \<and> set (free_list b) \<inter> set (replacer b) = {}
   \<and> (\<forall>p f. page_table b p = Some f \<longrightarrow>
          f < pool_size b \<and> f \<notin> set (free_list b) \<and> page_id (pages b ! f) = p)"


text \<open>The write-backs a disk manager has seen (newest first), for statements about
  which operations write pages back.\<close>

fun is_write :: "disk_call \<Rightarrow> bool" where
  "is_write (WritePageCall _ _) = True"
| "is_write _ = False"

definition write_calls :: "DiskManager \<Rightarrow> disk_call list" where
  "write_calls dm = filter is_write (disk_log dm)"

text \<open>Example pools used to instantiate the theorems below.\<close>

definition ex_pool :: BufferPoolManager where
  "ex_pool = \<lparr> pool_size = 2,
       pages = [\<lparr> data = zeroed, page_id = 7, pin_count = 1, is_dirty = True \<rparr>,
                \<lparr> data = zeroed, page_id = 9, pin_count = 0, is_dirty = False \<rparr>],
       page_table = [7 \<mapsto> 0, 9 \<mapsto> 1], replacer = [1], free_list = [],
       disk_manager = new_DiskManager \<rparr>"


definition ex_unpinned :: BufferPoolManager where
  "ex_unpinned = apply_op (UnpinPage 0 False) (apply_op NewPage (new_BufferPoolManager 2 new_DiskManager))"




section \<open>B+ tree pages\<close>

text \<open>
  A run of the index code either returns or aborts. \<open>AssertionFailed\<close> is a failed
  \<open>assert\<close>, \<open>NullDereference\<close> a dereference of \<open>nullptr\<close>, \<open>OutOfBounds\<close> an array access
  at a negative index (it would touch the page header), \<open>OutOfFuel\<close> a loop or recursion
  that did not finish within the given number of steps.

  Whether \<open>assert\<close> is compiled in depends on the build, so every function that asserts
  takes the flag \<open>ndebug\<close>: \<open>False\<close> is the build with assertions (the default debug
  build), \<open>True\<close> the build with \<open>NDEBUG\<close>, where \<open>assert\<close> does nothing.
\<close>

datatype abort = AssertionFailed | NullDereference | OutOfBounds | OutOfFuel

type_synonym 'a result = "abort + 'a"

definition then_do :: "'a result \<Rightarrow> ('a \<Rightarrow> 'b result) \<Rightarrow> 'b result" where
  "then_do m k = (case m of Inl e \<Rightarrow> Inl e | Inr x \<Rightarrow> k x)"

definition c_assert :: "bool \<Rightarrow> bool \<Rightarrow> unit result" where
  "c_assert ndebug cond = (if ndebug \<or> cond then Inr () else Inl AssertionFailed)"

text \<open>C++ integer division truncates towards zero.\<close>

definition c_div :: "int \<Rightarrow> int \<Rightarrow> int" where
  "c_div a b = sgn a * sgn b * (\<bar>a\<bar> div \<bar>b\<bar>)"

text \<open>The entry array of a page is the list of the slots written so far; a slot never
  written holds zero bytes (\<open>ResetMemory\<close>). Slots at and beyond \<open>size_\<close> keep their old
  content, as the memory does. (The capacity of a page, 4096 bytes, is not modelled.)\<close>

definition slot :: "MappingType list \<Rightarrow> nat \<Rightarrow> MappingType" where
  "slot xs i = (if i < length xs then xs ! i else (0, 0))"

definition set_slot :: "MappingType list \<Rightarrow> nat \<Rightarrow> MappingType \<Rightarrow> MappingType list" where
  "set_slot xs i v =
     (if i < length xs then xs[i := v] else xs @ replicate (i - length xs) (0, 0) @ [v])"

definition get_at :: "page_data \<Rightarrow> int \<Rightarrow> MappingType result" where
  "get_at d i = (if i < 0 then Inl OutOfBounds else Inr (slot (array d) (nat i)))"

definition put_at :: "int \<Rightarrow> MappingType \<Rightarrow> page_data \<Rightarrow> page_data result" where
  "put_at i e d =
     (if i < 0 then Inl OutOfBounds else Inr (d\<lparr> array := set_slot (array d) (nat i) e \<rparr>))"

text \<open>The entries in use: slots \<open>0 .. size_ - 1\<close>.\<close>

definition entries :: "page_data \<Rightarrow> MappingType list" where
  "entries d = map (slot (array d)) [0 ..< nat (cur_size d)]"

text \<open>Modelled from the spec: the accessors of the common page header
  (b\_plus\_tree\_page.cpp is not part of the sources at hand). \<open>GetMinSize\<close> follows
  section 3 of the specification: \<open>ceil(max_size / 2)\<close> for an internal page,
  \<open>ceil((max_size - 1) / 2)\<close> for a leaf, and the root is exempt from the lower bound
  (invariant T4): a root underflows only in the two cases \<open>AdjustRoot\<close> provides for, a
  leaf root that has become empty and an internal root with a single child left.\<close>

definition IsLeafPage :: "page_data \<Rightarrow> bool" where
  "IsLeafPage d \<longleftrightarrow> page_type d = LEAF_PAGE"

definition IsRootPage :: "page_data \<Rightarrow> bool" where
  "IsRootPage d \<longleftrightarrow> parent_page_id d = INVALID_PAGE_ID"

definition IncreaseSize :: "int \<Rightarrow> page_data \<Rightarrow> page_data" where
  "IncreaseSize amount d = d\<lparr> cur_size := cur_size d + amount \<rparr>"

definition GetMinSize :: "page_data \<Rightarrow> int" where
  "GetMinSize d =
     (if IsRootPage d then (if IsLeafPage d then 1 else 2)
      else if IsLeafPage d then (max_size d - 1 + 1) div 2 else (max_size d + 1) div 2)"

subsection \<open>Internal pages (b\_plus\_tree\_internal\_page.cpp)\<close>

definition Internal_Init :: "page_id_t \<Rightarrow> page_id_t \<Rightarrow> int \<Rightarrow> page_data \<Rightarrow> page_data" where
  "Internal_Init pid parent_id msize d =
     d\<lparr> page_type := INTERNAL_PAGE, cur_size := 0, max_size := msize,
        parent_page_id := parent_id, tree_page_id := pid \<rparr>"

definition Internal_KeyAt :: "bool \<Rightarrow> page_data \<Rightarrow> int \<Rightarrow> int result" where
  "Internal_KeyAt ndebug d index =
     then_do (c_assert ndebug (index \<ge> 0 \<and> index < cur_size d)) (\<lambda>_.
     then_do (get_at d index) (\<lambda>e. Inr (fst e)))"

definition Internal_SetKeyAt :: "bool \<Rightarrow> int \<Rightarrow> int \<Rightarrow> page_data \<Rightarrow> page_data result" where
  "Internal_SetKeyAt ndebug index key d =
     then_do (c_assert ndebug (index \<ge> 0 \<and> index < cur_size d)) (\<lambda>_.
     then_do (get_at d index) (\<lambda>e. put_at index (key, snd e) d))"

fun index_where :: "(MappingType \<Rightarrow> bool) \<Rightarrow> MappingType list \<Rightarrow> int \<Rightarrow> int" where
  "index_where P [] i = -1"
| "index_where P (e # es) i = (if P e then i else index_where P es (i + 1))"

definition Internal_KeyIndex :: "page_data \<Rightarrow> int \<Rightarrow> int" where
  "Internal_KeyIndex d key = index_where (\<lambda>e. fst e = key) (entries d) 0"

definition Internal_ValueIndex :: "page_data \<Rightarrow> int \<Rightarrow> int" where
  "Internal_ValueIndex d v = index_where (\<lambda>e. snd e = v) (entries d) 0"

definition Internal_ValueAt :: "bool \<Rightarrow> page_data \<Rightarrow> int \<Rightarrow> int result" where
  "Internal_ValueAt ndebug d index =
     then_do (c_assert ndebug (index \<ge> 0 \<and> index < cur_size d)) (\<lambda>_.
     then_do (get_at d index) (\<lambda>e. Inr (snd e)))"

definition Internal_SetValueAt :: "bool \<Rightarrow> int \<Rightarrow> int \<Rightarrow> page_data \<Rightarrow> page_data result" where
  "Internal_SetValueAt ndebug index v d =
     then_do (c_assert ndebug (index \<ge> 0 \<and> index < cur_size d)) (\<lambda>_.
     then_do (get_at d index) (\<lambda>e. put_at index (fst e, v) d))"

text \<open>\<open>Lookup\<close>: the loop \<open>for i = 1 .. size - 1\<close> returns the pointer before the first key
  greater than \<open>key\<close>, else the last pointer \<open>array[size - 1]\<close> (index \<open>-1\<close> when the
  page is empty).\<close>

fun lookup_from :: "int \<Rightarrow> MappingType \<Rightarrow> MappingType list \<Rightarrow> int" where
  "lookup_from key prev [] = snd prev"
| "lookup_from key prev (e # es) = (if fst e > key then snd prev else lookup_from key e es)"

definition Internal_Lookup :: "page_data \<Rightarrow> int \<Rightarrow> int result" where
  "Internal_Lookup d key =
     (case entries d of [] \<Rightarrow> Inl OutOfBounds | e0 # es \<Rightarrow> Inr (lookup_from key e0 es))"

definition PopulateNewRoot :: "int \<Rightarrow> int \<Rightarrow> int \<Rightarrow> page_data \<Rightarrow> page_data" where
  "PopulateNewRoot old_value new_key new_value d =
     (let a1 = set_slot (array d) 0 (fst (slot (array d) 0), old_value);
          a2 = set_slot a1 1 (new_key, new_value)
      in d\<lparr> array := a2, parent_page_id := INVALID_PAGE_ID, cur_size := 2 \<rparr>)"

text \<open>\<open>InsertNodeAfter\<close>: the loop \<open>for (i = size - 1; i > index; i--) array[i] = array[i - 1]\<close>
  runs over the indices from \<open>size - 1\<close> down to \<open>index + 1\<close>.\<close>

definition shift_right :: "nat \<Rightarrow> nat \<Rightarrow> MappingType list \<Rightarrow> MappingType list" where
  "shift_right index sz a =
     fold (\<lambda>i a. set_slot a i (slot a (i - 1))) (rev [Suc index ..< sz]) a"

definition InsertNodeAfter :: "bool \<Rightarrow> int \<Rightarrow> int \<Rightarrow> int \<Rightarrow> page_data \<Rightarrow> (int \<times> page_data) result" where
  "InsertNodeAfter ndebug old_value new_key new_value d =
     (let index = Internal_ValueIndex d old_value + 1 in
      then_do (c_assert ndebug (index > 0)) (\<lambda>_.
        let d1 = IncreaseSize 1 d;
            sz = cur_size d1;
            a1 = shift_right (nat index) (nat sz) (array d1)
        in then_do (put_at index (new_key, new_value) (d1\<lparr> array := a1 \<rparr>)) (\<lambda>d2.
           Inr (sz, d2))))"

text \<open>\<open>Remove\<close>: the loop \<open>for (i = index + 1; i < size; i++) array[i - 1] = array[i]\<close>.\<close>

definition shift_left :: "nat \<Rightarrow> nat \<Rightarrow> MappingType list \<Rightarrow> MappingType list" where
  "shift_left start sz a =
     fold (\<lambda>i a. set_slot a (i - 1) (slot a i)) [start ..< sz] a"

definition Internal_Remove :: "bool \<Rightarrow> int \<Rightarrow> page_data \<Rightarrow> page_data result" where
  "Internal_Remove ndebug index d =
     (let sz = cur_size d in
      then_do (c_assert ndebug (index \<ge> 0 \<and> index < sz)) (\<lambda>_.
        if index + 1 \<le> 0 \<and> index + 1 < sz then Inl OutOfBounds
        else Inr (IncreaseSize (-1) (d\<lparr> array := shift_left (nat (index + 1)) (nat sz) (array d) \<rparr>))))"

definition RemoveAndReturnOnlyChild :: "bool \<Rightarrow> page_data \<Rightarrow> (int \<times> page_data) result" where
  "RemoveAndReturnOnlyChild ndebug d =
     then_do (Internal_ValueAt ndebug d 0) (\<lambda>ret.
       let d1 = IncreaseSize (-1) d in
       then_do (c_assert ndebug (cur_size d1 = 0)) (\<lambda>_. Inr (ret, d1)))"

subsection \<open>Pages seen through the buffer pool\<close>

text \<open>A pointer to a B+ tree page is a pointer into the bytes of a frame, so it is modelled
  as the frame id; reading and writing through it reads and writes the \<open>data\<close> of that
  frame, whatever page the frame holds at that moment.\<close>

definition tree_page :: "BufferPoolManager \<Rightarrow> frame_id_t \<Rightarrow> page_data" where
  "tree_page b f = data (pages b ! f)"

definition set_tree_page :: "frame_id_t \<Rightarrow> page_data \<Rightarrow> BufferPoolManager \<Rightarrow> BufferPoolManager" where
  "set_tree_page f d b = b\<lparr> pages := (pages b)[f := (pages b ! f)\<lparr> data := d \<rparr>] \<rparr>"

definition SetParentPageId :: "frame_id_t \<Rightarrow> page_id_t \<Rightarrow> BufferPoolManager \<Rightarrow> BufferPoolManager" where
  "SetParentPageId f parent b = set_tree_page f ((tree_page b f)\<lparr> parent_page_id := parent \<rparr>) b"

definition SetSize :: "frame_id_t \<Rightarrow> int \<Rightarrow> BufferPoolManager \<Rightarrow> BufferPoolManager" where
  "SetSize f sz b = set_tree_page f ((tree_page b f)\<lparr> cur_size := sz \<rparr>) b"

text \<open>\<open>FetchPage\<close> followed by \<open>assert(page != nullptr)\<close> and a use of the page, and
  \<open>FetchPage\<close> followed by a use of the page with no assertion.\<close>

definition FetchPage_assert ::
  "bool \<Rightarrow> page_id_t \<Rightarrow> BufferPoolManager \<Rightarrow> (frame_id_t \<times> BufferPoolManager) result" where
  "FetchPage_assert ndebug pid b =
     (case FetchPageImpl pid b of
        (None, b1) \<Rightarrow> Inl (if ndebug then NullDereference else AssertionFailed)
      | (Some f, b1) \<Rightarrow> Inr (f, b1))"

definition FetchPage_deref ::
  "page_id_t \<Rightarrow> BufferPoolManager \<Rightarrow> (frame_id_t \<times> BufferPoolManager) result" where
  "FetchPage_deref pid b =
     (case FetchPageImpl pid b of
        (None, b1) \<Rightarrow> Inl NullDereference
      | (Some f, b1) \<Rightarrow> Inr (f, b1))"

definition NewPage_assert ::
  "bool \<Rightarrow> BufferPoolManager \<Rightarrow> (frame_id_t \<times> page_id_t \<times> BufferPoolManager) result" where
  "NewPage_assert ndebug b =
     (case NewPageImpl b of
        (None, pid, b1) \<Rightarrow> Inl (if ndebug then NullDereference else AssertionFailed)
      | (Some f, pid, b1) \<Rightarrow> Inr (f, pid, b1))"

definition int_range :: "int \<Rightarrow> int \<Rightarrow> int list" where
  "int_range lo hi = map (\<lambda>k. lo + int k) [0 ..< nat (hi - lo)]"

text \<open>The loop body shared by \<open>MoveHalfTo\<close> and \<open>MoveAllTo\<close> of an internal page: entry \<open>i\<close>
  of this page is copied to slot \<open>i + off\<close> of the recipient with \<open>SetKeyAt\<close> and
  \<open>SetValueAt\<close>, then the child is fetched, adopted and unpinned dirty.\<close>

fun move_entries_loop ::
  "bool \<Rightarrow> frame_id_t \<Rightarrow> frame_id_t \<Rightarrow> int \<Rightarrow> page_id_t \<Rightarrow> int list \<Rightarrow> BufferPoolManager
     \<Rightarrow> BufferPoolManager result" where
  "move_entries_loop ndebug this recipient off recipPageId [] b = Inr b"
| "move_entries_loop ndebug this recipient off recipPageId (i # rest) b =
     then_do (get_at (tree_page b this) i) (\<lambda>e.
     then_do (Internal_SetKeyAt ndebug (i + off) (fst e) (tree_page b recipient)) (\<lambda>d1.
       let b1 = set_tree_page recipient d1 b in
       then_do (get_at (tree_page b1 this) i) (\<lambda>e1.
       then_do (Internal_SetValueAt ndebug (i + off) (snd e1) (tree_page b1 recipient)) (\<lambda>d2.
         let b2 = set_tree_page recipient d2 b1 in
         then_do (get_at (tree_page b2 this) i) (\<lambda>e2.
         then_do (FetchPage_assert ndebug (snd e2) b2) (\<lambda>(child, b3).
           let b4 = SetParentPageId child recipPageId b3 in
           then_do (get_at (tree_page b4 this) i) (\<lambda>e3.
             let b5 = snd (UnpinPageImpl (snd e3) True b4) in
             move_entries_loop ndebug this recipient off recipPageId rest b5)))))))"

definition Internal_MoveHalfTo ::
  "bool \<Rightarrow> frame_id_t \<Rightarrow> frame_id_t \<Rightarrow> BufferPoolManager \<Rightarrow> BufferPoolManager result" where
  "Internal_MoveHalfTo ndebug this recipient b =
     (let total = max_size (tree_page b this) + 1 in
      then_do (c_assert ndebug (cur_size (tree_page b this) = total)) (\<lambda>_.
        let copyIdx = c_div total 2;
            recipPageId = tree_page_id (tree_page b recipient)
        in then_do (move_entries_loop ndebug this recipient (- copyIdx) recipPageId
                      (int_range copyIdx total) b) (\<lambda>b1.
             Inr (SetSize recipient (total - copyIdx) (SetSize this copyIdx b1)))))"

definition Internal_MoveAllTo ::
  "bool \<Rightarrow> frame_id_t \<Rightarrow> frame_id_t \<Rightarrow> int \<Rightarrow> BufferPoolManager \<Rightarrow> BufferPoolManager result" where
  "Internal_MoveAllTo ndebug this recipient middle_key b =
     (let start = cur_size (tree_page b recipient);
          sz = cur_size (tree_page b this);
          recipPageId = tree_page_id (tree_page b recipient)
      in then_do (Internal_SetKeyAt ndebug 0 middle_key (tree_page b this)) (\<lambda>d0.
         then_do (move_entries_loop ndebug this recipient start recipPageId
                    (int_range 0 sz) (set_tree_page this d0 b)) (\<lambda>b1.
           let b2 = SetSize recipient (start + sz) b1 in
           then_do (c_assert ndebug (cur_size (tree_page b2 recipient) \<le> max_size (tree_page b2 this))) (\<lambda>_.
             let b3 = SetSize this 0 b2;
                 b4 = snd (UnpinPageImpl (tree_page_id (tree_page b3 this)) True b3);
                 b5 = snd (UnpinPageImpl (tree_page_id (tree_page b4 recipient)) True b4)
             in Inr b5))))"

definition CopyLastFrom ::
  "bool \<Rightarrow> frame_id_t \<Rightarrow> MappingType \<Rightarrow> BufferPoolManager \<Rightarrow> BufferPoolManager result" where
  "CopyLastFrom ndebug this pair b =
     then_do (c_assert ndebug (cur_size (tree_page b this) + 1 \<le> max_size (tree_page b this))) (\<lambda>_.
     then_do (put_at (cur_size (tree_page b this)) pair (tree_page b this)) (\<lambda>d1.
     then_do (FetchPage_assert ndebug (snd pair) (set_tree_page this d1 b)) (\<lambda>(child, b1).
       let b2 = SetParentPageId child (tree_page_id (tree_page b1 this)) b1;
           b3 = snd (UnpinPageImpl (tree_page_id (tree_page b2 child)) True b2)
       in Inr (set_tree_page this (IncreaseSize 1 (tree_page b3 this)) b3))))"

text \<open>Writing the key of the parent's slot that holds \<open>middle_key\<close>: the tail shared by
  \<open>MoveFirstToEndOf\<close> and \<open>MoveLastToFrontOf\<close>.\<close>

definition update_parent_key ::
  "bool \<Rightarrow> frame_id_t \<Rightarrow> int \<Rightarrow> int \<Rightarrow> BufferPoolManager \<Rightarrow> BufferPoolManager result" where
  "update_parent_key ndebug this middle_key removed_key b =
     then_do (FetchPage_assert ndebug (parent_page_id (tree_page b this)) b) (\<lambda>(parent, b1).
       let middle_index = Internal_KeyIndex (tree_page b1 parent) middle_key in
       then_do (Internal_SetKeyAt ndebug middle_index removed_key (tree_page b1 parent)) (\<lambda>d1.
         let b2 = set_tree_page parent d1 b1
         in Inr (snd (UnpinPageImpl (parent_page_id (tree_page b2 this)) True b2))))"

definition Internal_MoveFirstToEndOf ::
  "bool \<Rightarrow> frame_id_t \<Rightarrow> frame_id_t \<Rightarrow> int \<Rightarrow> BufferPoolManager \<Rightarrow> BufferPoolManager result" where
  "Internal_MoveFirstToEndOf ndebug this recipient middle_key b =
     then_do (c_assert ndebug (cur_size (tree_page b this) > 0)) (\<lambda>_.
       let removed_key = fst (slot (array (tree_page b this)) 1);
           removed_pointer = snd (slot (array (tree_page b this)) 0);
           d1 = IncreaseSize (-1) (tree_page b this);
           curr_size = cur_size d1;
           d2 = d1\<lparr> array := shift_left 1 (Suc (nat curr_size)) (array d1) \<rparr>
       in then_do (CopyLastFrom ndebug recipient (middle_key, removed_pointer) (set_tree_page this d2 b))
            (\<lambda>b1. update_parent_key ndebug this middle_key removed_key b1))"

text \<open>\<open>CopyFirstFrom\<close>: the loop \<open>for (i = 0; i < size; i++) array[i + 1] = array[i]\<close> runs
  upwards.\<close>

definition CopyFirstFrom ::
  "bool \<Rightarrow> frame_id_t \<Rightarrow> MappingType \<Rightarrow> BufferPoolManager \<Rightarrow> BufferPoolManager result" where
  "CopyFirstFrom ndebug this pair b =
     (let sz = cur_size (tree_page b this) in
      then_do (c_assert ndebug (sz < max_size (tree_page b this))) (\<lambda>_.
        let a1 = fold (\<lambda>i a. set_slot a (Suc i) (slot a i)) [0 ..< nat sz] (array (tree_page b this));
            a2 = set_slot a1 0 (fst (slot a1 0), snd pair);
            a3 = set_slot a2 1 (fst pair, snd (slot a2 1));
            b1 = set_tree_page this ((tree_page b this)\<lparr> array := a3 \<rparr>) b
        in then_do (FetchPage_deref (snd pair) b1) (\<lambda>(child, b2).
             let b3 = SetParentPageId child (tree_page_id (tree_page b2 this)) b2;
                 b4 = snd (UnpinPageImpl (tree_page_id (tree_page b3 child)) True b3)
             in Inr (set_tree_page this (IncreaseSize 1 (tree_page b4 this)) b4))))"

definition Internal_MoveLastToFrontOf ::
  "bool \<Rightarrow> frame_id_t \<Rightarrow> frame_id_t \<Rightarrow> int \<Rightarrow> BufferPoolManager \<Rightarrow> BufferPoolManager result" where
  "Internal_MoveLastToFrontOf ndebug this recipient middle_key b =
     then_do (c_assert ndebug (cur_size (tree_page b this) > 0)) (\<lambda>_.
     then_do (get_at (tree_page b this) (cur_size (tree_page b this) - 1)) (\<lambda>removed.
       let b1 = set_tree_page this (IncreaseSize (-1) (tree_page b this)) b in
       then_do (CopyFirstFrom ndebug recipient (middle_key, snd removed) b1) (\<lambda>b2.
         update_parent_key ndebug this middle_key (fst removed) b2)))"

subsection \<open>Leaf pages and the header page\<close>

text \<open>Modelled from the spec: the leaf page operations (b\_plus\_tree\_leaf\_page.cpp is not
  part of the sources at hand). A leaf keeps its entries in ascending key order;
  \<open>Lookup\<close> finds the value of a key; \<open>Insert\<close> inserts preserving the order;
  \<open>RemoveAndDeleteRecord\<close> deletes the entry of a key and returns the size after;
  \<open>MoveHalfTo\<close> moves the entries from index \<open>max_size / 2\<close> on into the new leaf and
  splices it into the leaf chain (\<open>new.next = old.next; old.next = new\<close>); \<open>MoveAllTo\<close>
  appends all entries to the recipient, which inherits \<open>next_page_id\<close>;
  \<open>MoveFirstToEndOf\<close> and \<open>MoveLastToFrontOf\<close> move one entry and update the separator in
  the parent.\<close>

definition Leaf_Init :: "page_id_t \<Rightarrow> page_id_t \<Rightarrow> int \<Rightarrow> page_data \<Rightarrow> page_data" where
  "Leaf_Init pid parent_id msize d =
     d\<lparr> page_type := LEAF_PAGE, cur_size := 0, max_size := msize,
        parent_page_id := parent_id, tree_page_id := pid, next_page_id := INVALID_PAGE_ID \<rparr>"

definition Leaf_KeyAt :: "page_data \<Rightarrow> int \<Rightarrow> int result" where
  "Leaf_KeyAt d index = then_do (get_at d index) (\<lambda>e. Inr (fst e))"

definition Leaf_Lookup :: "page_data \<Rightarrow> int \<Rightarrow> int option" where
  "Leaf_Lookup d key = map_of (entries d) key"

definition Leaf_Insert :: "int \<Rightarrow> int \<Rightarrow> page_data \<Rightarrow> page_data" where
  "Leaf_Insert key v d =
     d\<lparr> array := takeWhile (\<lambda>e. fst e < key) (entries d) @ [(key, v)]
                  @ dropWhile (\<lambda>e. fst e < key) (entries d),
        cur_size := cur_size d + 1 \<rparr>"

definition Leaf_RemoveAndDeleteRecord :: "int \<Rightarrow> page_data \<Rightarrow> int \<times> page_data" where
  "Leaf_RemoveAndDeleteRecord key d =
     (case map_of (entries d) key of
        None \<Rightarrow> (cur_size d, d)
      | Some v \<Rightarrow> (cur_size d - 1,
                   d\<lparr> array := remove1 (key, v) (entries d), cur_size := cur_size d - 1 \<rparr>))"

definition Leaf_MoveHalfTo ::
  "frame_id_t \<Rightarrow> frame_id_t \<Rightarrow> BufferPoolManager \<Rightarrow> BufferPoolManager" where
  "Leaf_MoveHalfTo this recipient b =
     (let old = tree_page b this;
          k = nat (c_div (max_size old) 2);
          moved = drop k (entries old);
          new = (tree_page b recipient)\<lparr> array := moved, cur_size := int (length moved),
                                    next_page_id := next_page_id old \<rparr>;
          old1 = old\<lparr> array := take k (entries old), cur_size := int (length (take k (entries old))),
                     next_page_id := tree_page_id new \<rparr>
      in set_tree_page this old1 (set_tree_page recipient new b))"

definition Leaf_MoveAllTo ::
  "frame_id_t \<Rightarrow> frame_id_t \<Rightarrow> BufferPoolManager \<Rightarrow> BufferPoolManager" where
  "Leaf_MoveAllTo this recipient b =
     (let src = tree_page b this;
          dst = tree_page b recipient;
          all = entries dst @ entries src;
          dst1 = dst\<lparr> array := all, cur_size := int (length all), next_page_id := next_page_id src \<rparr>;
          b1 = set_tree_page recipient dst1 b
      in set_tree_page this ((tree_page b1 this)\<lparr> array := [], cur_size := 0 \<rparr>) b1)"

text \<open>Modelled from the spec: the separator of child page \<open>child_id\<close> in its parent is set
  to \<open>key\<close> (the parent is fetched, written and unpinned dirty).\<close>

definition Leaf_update_separator ::
  "bool \<Rightarrow> page_id_t \<Rightarrow> page_id_t \<Rightarrow> int \<Rightarrow> BufferPoolManager \<Rightarrow> BufferPoolManager result" where
  "Leaf_update_separator ndebug parent_id child_id key b =
     then_do (FetchPage_assert ndebug parent_id b) (\<lambda>(parent, b1).
     then_do (Internal_SetKeyAt ndebug (Internal_ValueIndex (tree_page b1 parent) child_id) key
                (tree_page b1 parent)) (\<lambda>d1.
       Inr (snd (UnpinPageImpl parent_id True (set_tree_page parent d1 b1)))))"

definition Leaf_MoveFirstToEndOf ::
  "bool \<Rightarrow> frame_id_t \<Rightarrow> frame_id_t \<Rightarrow> BufferPoolManager \<Rightarrow> BufferPoolManager result" where
  "Leaf_MoveFirstToEndOf ndebug this recipient b =
     (case entries (tree_page b this) of
        [] \<Rightarrow> Inl OutOfBounds
      | e # es \<Rightarrow>
          (let dst = tree_page b recipient;
               b1 = set_tree_page recipient
                      (dst\<lparr> array := entries dst @ [e], cur_size := cur_size dst + 1 \<rparr>) b;
               b2 = set_tree_page this ((tree_page b1 this)\<lparr> array := es, cur_size := int (length es) \<rparr>) b1
           in then_do (Leaf_KeyAt (tree_page b2 this) 0) (\<lambda>k.
                Leaf_update_separator ndebug (parent_page_id (tree_page b2 this))
                  (tree_page_id (tree_page b2 this)) k b2)))"

definition Leaf_MoveLastToFrontOf ::
  "bool \<Rightarrow> frame_id_t \<Rightarrow> frame_id_t \<Rightarrow> BufferPoolManager \<Rightarrow> BufferPoolManager result" where
  "Leaf_MoveLastToFrontOf ndebug this recipient b =
     (if entries (tree_page b this) = [] then Inl OutOfBounds
      else
        (let e = last (entries (tree_page b this));
             es = butlast (entries (tree_page b this));
             dst = tree_page b recipient;
             b1 = set_tree_page recipient
                    (dst\<lparr> array := e # entries dst, cur_size := cur_size dst + 1 \<rparr>) b;
             b2 = set_tree_page this ((tree_page b1 this)\<lparr> array := es, cur_size := int (length es) \<rparr>) b1
         in Leaf_update_separator ndebug (parent_page_id (tree_page b2 recipient))
              (tree_page_id (tree_page b2 recipient)) (fst e) b2))"

text \<open>Modelled from the spec: the header page (an external collaborator, section 6 of the
  specification) keeps records keyed by index name; \<open>InsertRecord\<close> adds a record for a
  new name, \<open>UpdateRecord\<close> overwrites the root id of an existing one.\<close>

definition InsertRecord :: "string \<Rightarrow> page_id_t \<Rightarrow> page_data \<Rightarrow> page_data" where
  "InsertRecord name root d =
     (if name \<in> fst ` set (header_records d) then d
      else d\<lparr> header_records := header_records d @ [(name, root)] \<rparr>)"

definition UpdateRecord :: "string \<Rightarrow> page_id_t \<Rightarrow> page_data \<Rightarrow> page_data" where
  "UpdateRecord name root d =
     d\<lparr> header_records := map (\<lambda>(n, r). if n = name then (n, root) else (n, r)) (header_records d) \<rparr>"

definition GetRootId :: "string \<Rightarrow> page_data \<Rightarrow> page_id_t option" where
  "GetRootId name d = map_of (header_records d) name"

section \<open>B+ tree (b\_plus\_tree.cpp)\<close>

text \<open>The tree object: its name, the root page id, the buffer pool it works on (the state
  of the pool is threaded through every operation) and the two size limits. Keys are
  integers under the usual order. Loops and recursions that follow page ids stored in
  pages take a number of steps \<open>fuel\<close> and abort with \<open>OutOfFuel\<close> when it is used up.\<close>

record BPlusTree =
  index_name :: string
  root_page_id :: page_id_t
  buffer_pool_manager :: BufferPoolManager
  leaf_max_size :: int
  internal_max_size :: int

datatype node_kind = LeafN | InternalN

definition new_BPlusTree :: "string \<Rightarrow> BufferPoolManager \<Rightarrow> int \<Rightarrow> int \<Rightarrow> BPlusTree" where
  "new_BPlusTree name b leaf_max internal_max =
     \<lparr> index_name = name, root_page_id = INVALID_PAGE_ID, buffer_pool_manager = b,
       leaf_max_size = leaf_max, internal_max_size = internal_max \<rparr>"

definition IsEmpty :: "BPlusTree \<Rightarrow> bool" where
  "IsEmpty t \<longleftrightarrow> root_page_id t = INVALID_PAGE_ID"

definition UpdateRootPageId :: "int \<Rightarrow> BPlusTree \<Rightarrow> BPlusTree result" where
  "UpdateRootPageId insert_record t =
     then_do (FetchPage_deref HEADER_PAGE_ID (buffer_pool_manager t)) (\<lambda>(header_page, b1).
       let d = (if insert_record \<noteq> 0
                then InsertRecord (index_name t) (root_page_id t) (tree_page b1 header_page)
                else UpdateRecord (index_name t) (root_page_id t) (tree_page b1 header_page));
           b2 = set_tree_page header_page d b1
       in Inr (t\<lparr> buffer_pool_manager := snd (UnpinPageImpl HEADER_PAGE_ID True b2) \<rparr>))"

fun FindLeafPage_loop ::
  "nat \<Rightarrow> bool \<Rightarrow> int \<Rightarrow> bool \<Rightarrow> page_id_t \<Rightarrow> frame_id_t \<Rightarrow> BufferPoolManager
     \<Rightarrow> (frame_id_t \<times> BufferPoolManager) result" where
  "FindLeafPage_loop 0 ndebug key leftMost cur pointer b = Inl OutOfFuel"
| "FindLeafPage_loop (Suc n) ndebug key leftMost cur pointer b =
     (if IsLeafPage (tree_page b pointer) then Inr (pointer, b)
      else
        then_do (if leftMost then Internal_ValueAt ndebug (tree_page b pointer) 0
                 else Internal_Lookup (tree_page b pointer) key) (\<lambda>next.
        then_do (FetchPage_deref next (snd (UnpinPageImpl cur False b))) (\<lambda>(pointer1, b1).
          FindLeafPage_loop n ndebug key leftMost next pointer1 b1)))"

definition FindLeafPage ::
  "nat \<Rightarrow> bool \<Rightarrow> int \<Rightarrow> bool \<Rightarrow> BPlusTree \<Rightarrow> (frame_id_t option \<times> BPlusTree) result" where
  "FindLeafPage fuel ndebug key leftMost t =
     (if IsEmpty t then Inr (None, t)
      else
        then_do (FetchPage_deref (root_page_id t) (buffer_pool_manager t)) (\<lambda>(pointer, b).
        then_do (FindLeafPage_loop fuel ndebug key leftMost (root_page_id t) pointer b) (\<lambda>(leaf, b1).
          Inr (Some leaf, t\<lparr> buffer_pool_manager := b1 \<rparr>))))"

text \<open>\<open>GetValue\<close>: \<open>Some v\<close> is the result \<open>true\<close> with \<open>v\<close> in \<open>result[0]\<close>, \<open>None\<close> the
  result \<open>false\<close>.\<close>

definition GetValue :: "nat \<Rightarrow> bool \<Rightarrow> int \<Rightarrow> BPlusTree \<Rightarrow> (int option \<times> BPlusTree) result" where
  "GetValue fuel ndebug key t =
     then_do (FindLeafPage fuel ndebug key False t) (\<lambda>(tar, t1).
       case tar of
         None \<Rightarrow> Inr (None, t1)
       | Some leaf \<Rightarrow>
           (let b = buffer_pool_manager t1;
                ret = Leaf_Lookup (tree_page b leaf) key
            in Inr (ret, t1\<lparr> buffer_pool_manager :=
                               snd (UnpinPageImpl (tree_page_id (tree_page b leaf)) False b) \<rparr>)))"

definition StartNewTree :: "bool \<Rightarrow> int \<Rightarrow> int \<Rightarrow> BPlusTree \<Rightarrow> BPlusTree result" where
  "StartNewTree ndebug key v t =
     then_do (NewPage_assert ndebug (buffer_pool_manager t)) (\<lambda>(root, newPageId, b1).
       let b2 = set_tree_page root
                  (Leaf_Init newPageId INVALID_PAGE_ID (leaf_max_size t) (tree_page b1 root)) b1
       in then_do (UpdateRootPageId 1 (t\<lparr> root_page_id := newPageId, buffer_pool_manager := b2 \<rparr>))
            (\<lambda>t1.
              let b3 = buffer_pool_manager t1;
                  b4 = set_tree_page root (Leaf_Insert key v (tree_page b3 root)) b3
              in Inr (t1\<lparr> buffer_pool_manager := snd (UnpinPageImpl newPageId True b4) \<rparr>)))"

text \<open>\<open>Split<N>\<close>: the template parameter is the argument \<open>kind\<close>.\<close>

definition Split ::
  "node_kind \<Rightarrow> bool \<Rightarrow> frame_id_t \<Rightarrow> BPlusTree \<Rightarrow> (frame_id_t \<times> BPlusTree) result" where
  "Split kind ndebug nd t =
     then_do (NewPage_assert ndebug (buffer_pool_manager t)) (\<lambda>(newNode, newPageId, b1).
       let init = (case kind of LeafN \<Rightarrow> Leaf_Init | InternalN \<Rightarrow> Internal_Init);
           b2 = set_tree_page newNode
                  (init newPageId (parent_page_id (tree_page b1 nd)) (max_size (tree_page b1 nd))
                     (tree_page b1 newNode)) b1
       in then_do (case kind of
                     LeafN \<Rightarrow> Inr (Leaf_MoveHalfTo nd newNode b2)
                   | InternalN \<Rightarrow> Internal_MoveHalfTo ndebug nd newNode b2) (\<lambda>b3.
            Inr (newNode, t\<lparr> buffer_pool_manager := b3 \<rparr>)))"

fun InsertIntoParent ::
  "nat \<Rightarrow> bool \<Rightarrow> frame_id_t \<Rightarrow> int \<Rightarrow> frame_id_t \<Rightarrow> BPlusTree \<Rightarrow> BPlusTree result" where
  "InsertIntoParent 0 ndebug old_node key new_node t = Inl OutOfFuel"
| "InsertIntoParent (Suc n) ndebug old_node key new_node t =
     (let b = buffer_pool_manager t in
      if IsRootPage (tree_page b old_node) then
        (case NewPageImpl b of (newPage, pid, b1) \<Rightarrow>
           (case newPage of
              None \<Rightarrow> Inl (if ndebug then NullDereference else AssertionFailed)
            | Some newRoot \<Rightarrow>
                then_do (c_assert ndebug (pin_count (pages b1 ! newRoot) = 1)) (\<lambda>_.
                  let b2 = set_tree_page newRoot
                             (Internal_Init pid INVALID_PAGE_ID (internal_max_size t)
                                (tree_page b1 newRoot)) b1;
                      b3 = set_tree_page newRoot
                             (PopulateNewRoot (tree_page_id (tree_page b2 old_node)) key
                                (tree_page_id (tree_page b2 new_node)) (tree_page b2 newRoot)) b2;
                      b4 = SetParentPageId old_node pid b3;
                      b5 = SetParentPageId new_node pid b4
                  in then_do (UpdateRootPageId 0
                                (t\<lparr> root_page_id := pid, buffer_pool_manager := b5 \<rparr>)) (\<lambda>t1.
                       let b6 = buffer_pool_manager t1;
                           b7 = snd (UnpinPageImpl (tree_page_id (tree_page b6 new_node)) True b6);
                           b8 = snd (UnpinPageImpl (tree_page_id (tree_page b7 newRoot)) True b7)
                       in Inr (t1\<lparr> buffer_pool_manager := b8 \<rparr>)))))
      else
        (let parentId = parent_page_id (tree_page b old_node) in
         then_do (FetchPage_assert ndebug parentId b) (\<lambda>(parent, b1).
           let b2 = SetParentPageId new_node parentId b1;
               b3 = snd (UnpinPageImpl (tree_page_id (tree_page b2 new_node)) True b2)
           in then_do (InsertNodeAfter ndebug (tree_page_id (tree_page b3 old_node)) key
                         (tree_page_id (tree_page b3 new_node)) (tree_page b3 parent)) (\<lambda>(sz, d).
                let b4 = set_tree_page parent d b3 in
                then_do (if cur_size (tree_page b4 parent) > max_size (tree_page b4 parent) then
                           then_do (Split InternalN ndebug parent (t\<lparr> buffer_pool_manager := b4 \<rparr>))
                             (\<lambda>(newLeafPage, t1).
                           then_do (Internal_KeyAt ndebug
                                      (tree_page (buffer_pool_manager t1) newLeafPage) 0) (\<lambda>k.
                             InsertIntoParent n ndebug parent k newLeafPage t1))
                         else Inr (t\<lparr> buffer_pool_manager := b4 \<rparr>)) (\<lambda>t2.
                  Inr (t2\<lparr> buffer_pool_manager :=
                              snd (UnpinPageImpl parentId True (buffer_pool_manager t2)) \<rparr>))))))"

definition InsertIntoLeaf ::
  "nat \<Rightarrow> bool \<Rightarrow> int \<Rightarrow> int \<Rightarrow> BPlusTree \<Rightarrow> (bool \<times> BPlusTree) result" where
  "InsertIntoLeaf fuel ndebug key v t =
     then_do (FindLeafPage fuel ndebug key False t) (\<lambda>(found, t1).
       case found of
         None \<Rightarrow> Inl NullDereference
       | Some leafPage \<Rightarrow>
           (let b = buffer_pool_manager t1 in
            case Leaf_Lookup (tree_page b leafPage) key of
              Some _ \<Rightarrow>
                Inr (False, t1\<lparr> buffer_pool_manager :=
                                   snd (UnpinPageImpl (tree_page_id (tree_page b leafPage)) False b) \<rparr>)
            | None \<Rightarrow>
                (let b1 = set_tree_page leafPage (Leaf_Insert key v (tree_page b leafPage)) b in
                 then_do (if cur_size (tree_page b1 leafPage) > max_size (tree_page b1 leafPage) then
                            then_do (Split LeafN ndebug leafPage (t1\<lparr> buffer_pool_manager := b1 \<rparr>))
                              (\<lambda>(newLeafPage, t2).
                            then_do (Leaf_KeyAt (tree_page (buffer_pool_manager t2) newLeafPage) 0)
                              (\<lambda>k. InsertIntoParent fuel ndebug leafPage k newLeafPage t2))
                          else Inr (t1\<lparr> buffer_pool_manager := b1 \<rparr>)) (\<lambda>t3.
                   let b3 = buffer_pool_manager t3
                   in Inr (True, t3\<lparr> buffer_pool_manager :=
                                        snd (UnpinPageImpl (tree_page_id (tree_page b3 leafPage))
                                               True b3) \<rparr>)))))"

definition Insert :: "nat \<Rightarrow> bool \<Rightarrow> int \<Rightarrow> int \<Rightarrow> BPlusTree \<Rightarrow> (bool \<times> BPlusTree) result" where
  "Insert fuel ndebug key v t =
     (if IsEmpty t then then_do (StartNewTree ndebug key v t) (\<lambda>t1. Inr (True, t1))
      else InsertIntoLeaf fuel ndebug key v t)"

definition FindSibling ::
  "bool \<Rightarrow> frame_id_t \<Rightarrow> BufferPoolManager \<Rightarrow> (bool \<times> frame_id_t \<times> BufferPoolManager) result" where
  "FindSibling ndebug nd b =
     then_do (FetchPage_assert ndebug (parent_page_id (tree_page b nd)) b) (\<lambda>(parent, b1).
       let index = Internal_ValueIndex (tree_page b1 parent) (tree_page_id (tree_page b1 nd));
           siblingIndex = (if index = 0 then index + 1 else index - 1)
       in then_do (Internal_ValueAt ndebug (tree_page b1 parent) siblingIndex) (\<lambda>sibling_id.
          then_do (FetchPage_deref sibling_id b1) (\<lambda>(sibling, b2).
            Inr (index = 0, sibling,
                 snd (UnpinPageImpl (tree_page_id (tree_page b2 parent)) False b2)))))"

definition Redistribute ::
  "node_kind \<Rightarrow> bool \<Rightarrow> frame_id_t \<Rightarrow> frame_id_t \<Rightarrow> int \<Rightarrow> int \<Rightarrow> BufferPoolManager
     \<Rightarrow> BufferPoolManager result" where
  "Redistribute kind ndebug neighbor_node nd index middle_key b =
     then_do (if index = 0 then
                (case kind of
                   LeafN \<Rightarrow> Leaf_MoveFirstToEndOf ndebug neighbor_node nd b
                 | InternalN \<Rightarrow> Internal_MoveFirstToEndOf ndebug neighbor_node nd middle_key b)
              else
                (case kind of
                   LeafN \<Rightarrow> Leaf_MoveLastToFrontOf ndebug neighbor_node nd b
                 | InternalN \<Rightarrow> Internal_MoveLastToFrontOf ndebug neighbor_node nd middle_key b))
       (\<lambda>b1.
         let b2 = snd (UnpinPageImpl (tree_page_id (tree_page b1 nd)) True b1)
         in Inr (snd (UnpinPageImpl (tree_page_id (tree_page b2 neighbor_node)) True b2)))"

definition AdjustRoot :: "bool \<Rightarrow> frame_id_t \<Rightarrow> BPlusTree \<Rightarrow> (bool \<times> BPlusTree) result" where
  "AdjustRoot ndebug old_root_node t =
     (let b = buffer_pool_manager t in
      if IsLeafPage (tree_page b old_root_node) then
        then_do (c_assert ndebug (cur_size (tree_page b old_root_node) = 0)) (\<lambda>_.
        then_do (c_assert ndebug
                   (parent_page_id (tree_page b old_root_node) = INVALID_PAGE_ID)) (\<lambda>_.
          let b1 = snd (UnpinPageImpl (tree_page_id (tree_page b old_root_node)) False b);
              b2 = snd (DeletePageImpl (tree_page_id (tree_page b1 old_root_node)) b1)
          in then_do (UpdateRootPageId 0
                        (t\<lparr> root_page_id := INVALID_PAGE_ID, buffer_pool_manager := b2 \<rparr>))
               (\<lambda>t1. Inr (True, t1))))
      else if cur_size (tree_page b old_root_node) = 1 then
        then_do (RemoveAndReturnOnlyChild ndebug (tree_page b old_root_node)) (\<lambda>(newRootId, d).
        then_do (UpdateRootPageId 0
                   (t\<lparr> root_page_id := newRootId,
                       buffer_pool_manager := set_tree_page old_root_node d b \<rparr>)) (\<lambda>t1.
        then_do (FetchPage_assert ndebug (root_page_id t1) (buffer_pool_manager t1))
          (\<lambda>(newRoot, b2).
            let b3 = SetParentPageId newRoot INVALID_PAGE_ID b2;
                b4 = snd (UnpinPageImpl (root_page_id t1) True b3);
                b5 = snd (UnpinPageImpl (tree_page_id (tree_page b4 old_root_node)) False b4);
                b6 = snd (DeletePageImpl (tree_page_id (tree_page b5 old_root_node)) b5)
            in Inr (True, t1\<lparr> buffer_pool_manager := b6 \<rparr>))))
      else Inr (False, t))"

fun CoalesceOrRedistribute ::
  "nat \<Rightarrow> node_kind \<Rightarrow> bool \<Rightarrow> frame_id_t \<Rightarrow> BPlusTree \<Rightarrow> (bool \<times> BPlusTree) result"
and Coalesce ::
  "nat \<Rightarrow> node_kind \<Rightarrow> bool \<Rightarrow> frame_id_t \<Rightarrow> frame_id_t \<Rightarrow> frame_id_t \<Rightarrow> int \<Rightarrow> BPlusTree
     \<Rightarrow> (bool \<times> BPlusTree) result" where
  "CoalesceOrRedistribute 0 kind ndebug nd t = Inl OutOfFuel"
| "CoalesceOrRedistribute (Suc n) kind ndebug nd t =
     (let b = buffer_pool_manager t in
      if IsRootPage (tree_page b nd) then AdjustRoot ndebug nd t
      else
        then_do (FindSibling ndebug nd b) (\<lambda>(nPrevN2, node2, b1).
        then_do (FetchPage_deref (parent_page_id (tree_page b1 nd)) b1) (\<lambda>(parentPage, b2).
          if cur_size (tree_page b2 nd) + cur_size (tree_page b2 node2) \<le> max_size (tree_page b2 nd)
          then
            (let later = (if nPrevN2 then node2 else nd);
                 earlier = (if nPrevN2 then nd else node2);
                 removeIndex = Internal_ValueIndex (tree_page b2 parentPage)
                                 (tree_page_id (tree_page b2 later))
             in then_do (Coalesce n kind ndebug earlier later parentPage removeIndex
                           (t\<lparr> buffer_pool_manager := b2 \<rparr>)) (\<lambda>(r, t1).
                  let b3 = buffer_pool_manager t1
                  in Inr (True, t1\<lparr> buffer_pool_manager :=
                                        snd (UnpinPageImpl (tree_page_id (tree_page b3 parentPage))
                                               True b3) \<rparr>)))
          else
            (let nodeInParentIndex = Internal_ValueIndex (tree_page b2 parentPage)
                                       (tree_page_id (tree_page b2 nd))
             in then_do (Internal_KeyAt ndebug (tree_page b2 parentPage) nodeInParentIndex)
                  (\<lambda>middle_key.
                then_do (Redistribute kind ndebug node2 nd nodeInParentIndex middle_key b2) (\<lambda>b3.
                  Inr (False, t\<lparr> buffer_pool_manager :=
                                    snd (UnpinPageImpl (tree_page_id (tree_page b3 parentPage))
                                           False b3) \<rparr>)))))))"
| "Coalesce n kind ndebug neighbor_node nd parent index t =
     (let b = buffer_pool_manager t in
      then_do (c_assert ndebug (cur_size (tree_page b nd) + cur_size (tree_page b neighbor_node)
                                  \<le> max_size (tree_page b neighbor_node))) (\<lambda>_.
      then_do (Internal_KeyAt ndebug (tree_page b parent) index) (\<lambda>middle_key.
      then_do (case kind of
                 LeafN \<Rightarrow> Inr (Leaf_MoveAllTo nd neighbor_node b)
               | InternalN \<Rightarrow> Internal_MoveAllTo ndebug nd neighbor_node middle_key b) (\<lambda>b1.
        let pId = tree_page_id (tree_page b1 nd);
            b2 = snd (UnpinPageImpl pId True b1);
            b3 = snd (DeletePageImpl pId b2);
            b4 = snd (UnpinPageImpl (tree_page_id (tree_page b3 neighbor_node)) True b3)
        in then_do (Internal_Remove ndebug index (tree_page b4 parent)) (\<lambda>d.
             let b5 = set_tree_page parent d b4 in
             if cur_size (tree_page b5 parent) < GetMinSize (tree_page b5 parent)
             then CoalesceOrRedistribute n InternalN ndebug parent (t\<lparr> buffer_pool_manager := b5 \<rparr>)
             else Inr (False, t\<lparr> buffer_pool_manager := b5 \<rparr>))))))"

definition Remove :: "nat \<Rightarrow> bool \<Rightarrow> int \<Rightarrow> BPlusTree \<Rightarrow> BPlusTree result" where
  "Remove fuel ndebug key t =
     (if IsEmpty t then Inr t
      else
        then_do (FindLeafPage fuel ndebug key False t) (\<lambda>(found, t1).
          case found of
            None \<Rightarrow> Inl NullDereference
          | Some delTar \<Rightarrow>
              (let b = buffer_pool_manager t1;
                   (curSize, d) = Leaf_RemoveAndDeleteRecord key (tree_page b delTar);
                   b1 = set_tree_page delTar d b
               in then_do (if curSize < GetMinSize (tree_page b1 delTar) then
                             then_do (CoalesceOrRedistribute fuel LeafN ndebug delTar
                                        (t1\<lparr> buffer_pool_manager := b1 \<rparr>)) (\<lambda>(r, t2). Inr t2)
                           else Inr (t1\<lparr> buffer_pool_manager := b1 \<rparr>)) (\<lambda>t3.
                    let b3 = buffer_pool_manager t3
                    in Inr (t3\<lparr> buffer_pool_manager :=
                                  snd (UnpinPageImpl (tree_page_id (tree_page b3 delTar)) True b3) \<rparr>)))))"

section \<open>Running sequences of index operations\<close>

text \<open>A client's calls: \<open>Ins k v\<close> is \<open>Insert(k, v)\<close>, \<open>Rem k\<close> is \<open>Remove(k)\<close>. A run stops at
  the first abort.\<close>

datatype tree_op = Ins int int | Rem int

fun run_ops :: "nat \<Rightarrow> bool \<Rightarrow> tree_op list \<Rightarrow> BPlusTree \<Rightarrow> BPlusTree result" where
  "run_ops fuel ndebug [] t = Inr t"
| "run_ops fuel ndebug (Ins k v # ops) t =
     then_do (Insert fuel ndebug k v t) (\<lambda>(r, t1). run_ops fuel ndebug ops t1)"
| "run_ops fuel ndebug (Rem k # ops) t =
     then_do (Remove fuel ndebug k t) (\<lambda>t1. run_ops fuel ndebug ops t1)"

text \<open>The result of \<open>GetValue(k)\<close> alone, and after a run (\<open>Inl\<close> when the run or the
  lookup aborts).\<close>

definition find_value :: "nat \<Rightarrow> bool \<Rightarrow> BPlusTree \<Rightarrow> int \<Rightarrow> int option result" where
  "find_value fuel ndebug t k = then_do (GetValue fuel ndebug k t) (\<lambda>(r, t1). Inr r)"

definition lookup_after :: "nat \<Rightarrow> bool \<Rightarrow> tree_op list \<Rightarrow> BPlusTree \<Rightarrow> int \<Rightarrow> int option result" where
  "lookup_after fuel ndebug ops t k =
     then_do (run_ops fuel ndebug ops t) (\<lambda>t1. find_value fuel ndebug t1 k)"

text \<open>The set-up of the scenarios of the specification: a pool of \<open>n\<close> frames on an empty
  disk, the header page (page 0) allocated first and kept pinned, as the test harness
  does, and an empty index with the given size limits.\<close>

definition pool_with_header :: "nat \<Rightarrow> BufferPoolManager" where
  "pool_with_header n = snd (snd (NewPageImpl (new_BufferPoolManager n new_DiskManager)))"

definition empty_index :: "nat \<Rightarrow> int \<Rightarrow> int \<Rightarrow> BPlusTree" where
  "empty_index n leaf_max internal_max =
     new_BPlusTree ''index'' (pool_with_header n) leaf_max internal_max"

definition ins_keys :: "int list \<Rightarrow> tree_op list" where
  "ins_keys ks = map (\<lambda>k. Ins k k) ks"

text \<open>Observations of a tree: the content of a page that is resident in the pool (type,
  parent, next leaf, entries in use), and the root id recorded in the header page.\<close>

definition page_view ::
  "BPlusTree \<Rightarrow> page_id_t \<Rightarrow> (IndexPageType \<times> page_id_t \<times> page_id_t \<times> MappingType list) option" where
  "page_view t pid =
     (case page_table (buffer_pool_manager t) pid of
        None \<Rightarrow> None
      | Some f \<Rightarrow>
          Some (page_type (tree_page (buffer_pool_manager t) f),
                parent_page_id (tree_page (buffer_pool_manager t) f),
                next_page_id (tree_page (buffer_pool_manager t) f),
                entries (tree_page (buffer_pool_manager t) f)))"

definition header_root :: "BPlusTree \<Rightarrow> page_id_t option" where
  "header_root t =
     (case page_table (buffer_pool_manager t) HEADER_PAGE_ID of
        None \<Rightarrow> None
      | Some f \<Rightarrow> GetRootId (index_name t) (tree_page (buffer_pool_manager t) f))"


definition root_after ::
  "nat \<Rightarrow> bool \<Rightarrow> tree_op list \<Rightarrow> BPlusTree \<Rightarrow> (bool \<times> page_id_t \<times> page_id_t option) result" where
  "root_after fuel ndebug ops t =
     then_do (run_ops fuel ndebug ops t) (\<lambda>t1. Inr (IsEmpty t1, root_page_id t1, header_root t1))"


section \<open>Example states and runs\<close>

text \<open>An internal page about to be split, as \<open>Split\<close> hands it to \<open>MoveHalfTo\<close>: page 10
  (frame 0, \<open>max_size\<close> 4) holds five entries whose children are the leaves 1 to 5
  (frames 2 to 6, unpinned), and page 11 (frame 1) is the new page after \<open>Init\<close>.
  \<open>split_view\<close> shows what a split leaves behind: size and entries of both pages, for
  each child its parent id, pin count and dirty flag, and the replacer.\<close>

definition ex_leaf :: "page_id_t \<Rightarrow> page_id_t \<Rightarrow> Page" where
  "ex_leaf pid parent =
     \<lparr> data = zeroed\<lparr> page_type := LEAF_PAGE, max_size := 4, parent_page_id := parent,
                        tree_page_id := pid, next_page_id := INVALID_PAGE_ID \<rparr>,
       page_id = pid, pin_count = 0, is_dirty = False \<rparr>"

definition ex_split_pool :: BufferPoolManager where
  "ex_split_pool =
     \<lparr> pool_size = 8,
       pages = [\<lparr> data = zeroed\<lparr> page_type := INTERNAL_PAGE, cur_size := 5, max_size := 4,
                                   parent_page_id := INVALID_PAGE_ID, tree_page_id := 10,
                                   array := [(0, 1), (20, 2), (30, 3), (40, 4), (50, 5)] \<rparr>,
                  page_id = 10, pin_count = 1, is_dirty = True \<rparr>,
                \<lparr> data = Internal_Init 11 INVALID_PAGE_ID 4 zeroed,
                  page_id = 11, pin_count = 1, is_dirty = False \<rparr>,
                ex_leaf 1 10, ex_leaf 2 10, ex_leaf 3 10, ex_leaf 4 10, ex_leaf 5 10, new_Page],
       page_table = [10 \<mapsto> 0, 11 \<mapsto> 1, 1 \<mapsto> 2, 2 \<mapsto> 3, 3 \<mapsto> 4, 4 \<mapsto> 5, 5 \<mapsto> 6],
       replacer = [6, 5, 4, 3, 2], free_list = [7],
       disk_manager = new_DiskManager \<rparr>"

definition split_view ::
  "BufferPoolManager result \<Rightarrow>
     ((int \<times> MappingType list) \<times> (int \<times> MappingType list) \<times> (page_id_t \<times> int \<times> bool) list
        \<times> frame_id_t list) result" where
  "split_view r =
     then_do r (\<lambda>b.
       Inr ((cur_size (tree_page b 0), entries (tree_page b 0)),
            (cur_size (tree_page b 1), entries (tree_page b 1)),
            map (\<lambda>f. (parent_page_id (tree_page b f), pin_count (pages b ! f), is_dirty (pages b ! f)))
              [2, 3, 4, 5, 6],
            replacer b))"



text \<open>The calls \<open>Remove(k)\<close> for the keys of a list, in the order of the list.\<close>

definition rem_keys :: "int list \<Rightarrow> tree_op list" where
  "rem_keys ks = map Rem ks"

section \<open>Properties of the replacer\<close>

lemma unpin_seq_distinct:
  "distinct (fs @ r) \<Longrightarrow> unpin_seq fs r = rev fs @ r"
proof (induction fs arbitrary: r)
  case Nil
  then show ?case by simp
next
  case (Cons f fs)
  have "f \<notin> set r" using Cons.prems by auto
  hence "Unpin f r = f # r" by (simp add: Unpin_def)
  moreover have "distinct (fs @ f # r)" using Cons.prems by auto
  ultimately show ?case using Cons.IH [of "f # r"] by simp
qed

lemma victim_seq_rev:
  "victim_seq (length fs) (rev fs) = (map Some fs, [])"
proof (induction fs)
  case Nil
  then show ?case by simp
next
  case (Cons f fs)
  have "Victim (rev (f # fs)) = (Some f, rev fs)" by (simp add: Victim_def)
  then show ?case using Cons.IH by simp
qed

text \<open>
  Claim C4. Starting from an empty replacer, unpinning the pairwise different frames
  \<open>f1, ..., fn\<close> in that order (no \<open>Pin\<close> or \<open>Victim\<close> in between) makes the next
  \<open>n\<close> calls of \<open>Victim\<close> succeed with \<open>f1, ..., fn\<close> in exactly that order; one
  more call of \<open>Victim\<close> returns false.
\<close>

theorem lru_victim_order:
  assumes "distinct fs"
  shows "victim_seq (length fs) (unpin_seq fs []) = (map Some fs, [])
         \<and> fst (Victim (snd (victim_seq (length fs) (unpin_seq fs [])))) = None"
proof -
  have "unpin_seq fs [] = rev fs" using assms unpin_seq_distinct [of fs "[]"] by simp
  then show ?thesis by (simp add: victim_seq_rev Victim_def)
qed

theorem lru_victim_order_witness:
  "distinct [3, 1, 2 :: nat]
   \<and> victim_seq (length [3, 1, 2 :: nat]) (unpin_seq [3, 1, 2] []) = ([Some 3, Some 1, Some 2], [])
   \<and> fst (Victim (snd (victim_seq (length [3, 1, 2 :: nat]) (unpin_seq [3, 1, 2] [])))) = None"
proof -
  have d: "distinct [3, 1, 2 :: nat]" by simp
  have m: "map Some [3, 1, 2 :: nat] = [Some 3, Some 1, Some 2]" by simp
  show ?thesis using d lru_victim_order [OF d] unfolding m by blast
qed

section \<open>The invariant of the buffer pool\<close>

lemma bpm_inv_init: "bpm_inv (new_BufferPoolManager n dm)"
  by (auto simp: bpm_inv_def new_BufferPoolManager_def new_Page_def)

lemma Pin_set: "distinct r \<Longrightarrow> set (Pin f r) = set r - {f}"
  by (auto simp: Pin_def)

lemma Pin_distinct: "distinct r \<Longrightarrow> distinct (Pin f r)"
  by (auto simp: Pin_def)

lemma Unpin_set: "set (Unpin f r) = insert f (set r)"
  by (auto simp: Unpin_def)

lemma Unpin_distinct: "distinct r \<Longrightarrow> distinct (Unpin f r)"
  by (auto simp: Unpin_def)

lemma butlast_set:
  assumes "distinct xs" "xs \<noteq> []"
  shows "set (butlast xs) = set xs - {last xs}"
proof -
  have "distinct (butlast xs @ [last xs])" using assms by simp
  hence "last xs \<notin> set (butlast xs)" by simp
  moreover have "set xs = set (butlast xs @ [last xs])" using assms by simp
  ultimately show ?thesis by auto
qed

lemma bpm_inv_frame_update:
  assumes inv: "bpm_inv b" and f: "f < pool_size b"
    and dfl: "distinct fl" and dr: "distinct r" and disj: "set fl \<inter> set r = {}"
    and fl: "\<forall>g. g \<noteq> f \<longrightarrow> (g \<in> set fl \<longleftrightarrow> g \<in> set (free_list b))"
    and r: "\<forall>g. g \<noteq> f \<longrightarrow> (g \<in> set r \<longleftrightarrow> g \<in> set (replacer b))"
    and ffl: "f \<in> set fl \<longrightarrow> pin_count pg = 0 \<and> page_id pg = INVALID_PAGE_ID \<and> \<not> is_dirty pg"
    and fr: "f \<in> set r \<longrightarrow> pin_count pg = 0"
    and t: "\<forall>p g. t p = Some g \<longrightarrow>
              (g = f \<and> page_id pg = p \<and> f \<notin> set fl) \<or> (g \<noteq> f \<and> page_table b p = Some g)"
  shows "bpm_inv (b\<lparr> pages := (pages b)[f := pg], replacer := r, free_list := fl,
                     page_table := t, disk_manager := dm \<rparr>)"
proof -
  have len: "length (pages b) = pool_size b" using inv by (simp add: bpm_inv_def)
  have nth: "\<And>g. (pages b)[f := pg] ! g = (if g = f then pg else pages b ! g)"
    using f len by (simp add: nth_list_update)
  have i2: "\<forall>g \<in> set (free_list b). g < pool_size b \<and> pin_count (pages b ! g) = 0
          \<and> page_id (pages b ! g) = INVALID_PAGE_ID \<and> \<not> is_dirty (pages b ! g)"
    using inv by (simp add: bpm_inv_def)
  have i3: "\<forall>g \<in> set (replacer b). g < pool_size b \<and> pin_count (pages b ! g) = 0"
    using inv by (simp add: bpm_inv_def)
  have i5: "\<forall>p g. page_table b p = Some g \<longrightarrow>
          g < pool_size b \<and> g \<notin> set (free_list b) \<and> page_id (pages b ! g) = p"
    using inv by (simp add: bpm_inv_def)
  have c2: "\<forall>g \<in> set fl. g < pool_size b \<and> pin_count ((pages b)[f := pg] ! g) = 0
          \<and> page_id ((pages b)[f := pg] ! g) = INVALID_PAGE_ID \<and> \<not> is_dirty ((pages b)[f := pg] ! g)"
    using i2 fl ffl f by (auto simp: nth)
  have c3: "\<forall>g \<in> set r. g < pool_size b \<and> pin_count ((pages b)[f := pg] ! g) = 0"
    using i3 r fr f by (auto simp: nth)
  have c5: "\<forall>p g. t p = Some g \<longrightarrow>
          g < pool_size b \<and> g \<notin> set fl \<and> page_id ((pages b)[f := pg] ! g) = p"
  proof (intro allI impI)
    fix p g assume "t p = Some g"
    with t have "(g = f \<and> page_id pg = p \<and> f \<notin> set fl) \<or> (g \<noteq> f \<and> page_table b p = Some g)"
      by blast
    then show "g < pool_size b \<and> g \<notin> set fl \<and> page_id ((pages b)[f := pg] ! g) = p"
      using f i5 fl by (auto simp: nth)
  qed
  show ?thesis
    unfolding bpm_inv_def using len dfl dr disj c2 c3 c5 by simp
qed

lemma bpm_invD:
  assumes "bpm_inv b"
  shows "length (pages b) = pool_size b"
    and "distinct (free_list b)"
    and "\<And>g. g \<in> set (free_list b) \<Longrightarrow> g < pool_size b \<and> pin_count (pages b ! g) = 0
          \<and> page_id (pages b ! g) = INVALID_PAGE_ID \<and> \<not> is_dirty (pages b ! g)"
    and "distinct (replacer b)"
    and "\<And>g. g \<in> set (replacer b) \<Longrightarrow> g < pool_size b \<and> pin_count (pages b ! g) = 0"
    and "set (free_list b) \<inter> set (replacer b) = {}"
    and "\<And>p g. page_table b p = Some g \<Longrightarrow>
          g < pool_size b \<and> g \<notin> set (free_list b) \<and> page_id (pages b ! g) = p"
  using assms unfolding bpm_inv_def by blast+

lemma bpm_inv_step:
  assumes inv: "bpm_inv b" and f: "f < pool_size b"
    and ps: "pool_size b' = pool_size b" and pgs: "pages b' = (pages b)[f := pg]"
    and dfl: "distinct (free_list b')" and dr: "distinct (replacer b')"
    and disj: "set (free_list b') \<inter> set (replacer b') = {}"
    and fl: "\<forall>g. g \<noteq> f \<longrightarrow> (g \<in> set (free_list b') \<longleftrightarrow> g \<in> set (free_list b))"
    and r: "\<forall>g. g \<noteq> f \<longrightarrow> (g \<in> set (replacer b') \<longleftrightarrow> g \<in> set (replacer b))"
    and ffl: "f \<in> set (free_list b') \<longrightarrow>
                pin_count pg = 0 \<and> page_id pg = INVALID_PAGE_ID \<and> \<not> is_dirty pg"
    and fr: "f \<in> set (replacer b') \<longrightarrow> pin_count pg = 0"
    and t: "\<forall>p g. page_table b' p = Some g \<longrightarrow>
              (g = f \<and> page_id pg = p \<and> f \<notin> set (free_list b'))
              \<or> (g \<noteq> f \<and> page_table b p = Some g)"
  shows "bpm_inv b'"
proof -
  have "b' = b\<lparr> pages := (pages b)[f := pg], replacer := replacer b', free_list := free_list b',
                 page_table := page_table b', disk_manager := disk_manager b' \<rparr>"
    using ps pgs by simp
  moreover have "bpm_inv (b\<lparr> pages := (pages b)[f := pg], replacer := replacer b',
                 free_list := free_list b',
                 page_table := page_table b', disk_manager := disk_manager b' \<rparr>)"
    by (rule bpm_inv_frame_update [OF inv f dfl dr disj fl r ffl fr t])
  ultimately show ?thesis by simp
qed

lemma bpm_inv_resident:
  assumes inv: "bpm_inv b" and pt: "page_table b p = Some f"
  shows "f < pool_size b" and "f \<notin> set (free_list b)"
    and "\<forall>q. page_table b q = Some f \<longrightarrow> page_id (pages b ! f) = q"
    and "f \<in> set (replacer b) \<longrightarrow> pin_count (pages b ! f) = 0"
    and "length (pages b) = pool_size b"
    and "distinct (free_list b)" and "distinct (replacer b)"
    and "set (free_list b) \<inter> set (replacer b) = {}"
proof -
  note D = bpm_invD [OF inv]
  show f: "f < pool_size b" and ffl: "f \<notin> set (free_list b)" using D(7) [OF pt] by auto
  show "\<forall>q. page_table b q = Some f \<longrightarrow> page_id (pages b ! f) = q" using D(7) by blast
  show "f \<in> set (replacer b) \<longrightarrow> pin_count (pages b ! f) = 0" using D(5) by blast
  show "length (pages b) = pool_size b" "distinct (free_list b)" "distinct (replacer b)"
    "set (free_list b) \<inter> set (replacer b) = {}" using D(1,2,4,6) by auto
qed

lemma bpm_inv_Unpin: "bpm_inv b \<Longrightarrow> bpm_inv (snd (UnpinPageImpl p d b))"
proof (cases "page_table b p")
  case None
  assume "bpm_inv b"
  then show ?thesis using None by (simp add: UnpinPageImpl_def)
next
  case (Some f)
  assume inv: "bpm_inv b"
  note R = bpm_inv_resident [OF inv Some]
  show ?thesis
  proof (rule bpm_inv_step [OF inv R(1), where pg = "pages (snd (UnpinPageImpl p d b)) ! f"])
    show "pages (snd (UnpinPageImpl p d b)) = (pages b)[f := pages (snd (UnpinPageImpl p d b)) ! f]"
      using Some R(1,5) by (simp add: UnpinPageImpl_def Let_def split: prod.splits)
  qed (use Some R in \<open>auto simp: UnpinPageImpl_def Let_def Unpin_set Unpin_distinct
        split: prod.splits if_splits\<close>)
qed

lemma bpm_inv_Flush: "bpm_inv b \<Longrightarrow> bpm_inv (snd (FlushPageImpl p b))"
proof (cases "page_table b p")
  case None
  assume "bpm_inv b"
  then show ?thesis using None by (simp add: FlushPageImpl_def)
next
  case (Some f)
  assume inv: "bpm_inv b"
  note R = bpm_inv_resident [OF inv Some]
  show ?thesis
  proof (cases "p = INVALID_PAGE_ID")
    case True
    then show ?thesis using inv Some by (simp add: FlushPageImpl_def)
  next
    case False
    show ?thesis
    proof (rule bpm_inv_step [OF inv R(1), where pg = "(pages b ! f)\<lparr> is_dirty := False \<rparr>"])
    qed (use Some False R in \<open>auto simp: FlushPageImpl_def\<close>)
  qed
qed

lemma bpm_inv_Fetch_resident:
  assumes inv: "bpm_inv b" and Some: "page_table b p = Some f"
  shows "bpm_inv (snd (FetchPageImpl p b))"
proof -
  note R = bpm_inv_resident [OF inv Some]
  show ?thesis
  proof (rule bpm_inv_step [OF inv R(1), where pg = "(pages b ! f)\<lparr> pin_count := wrap_int32 (pin_count (pages b ! f) + 1) \<rparr>"])
  qed (use Some R in \<open>auto simp: FetchPageImpl_def Pin_set Pin_distinct\<close>)
qed

lemma bpm_inv_Delete: "bpm_inv b \<Longrightarrow> bpm_inv (snd (DeletePageImpl p b))"
proof (cases "page_table b p")
  case None
  assume "bpm_inv b"
  then show ?thesis using None by (simp add: DeletePageImpl_def)
next
  case (Some f)
  assume inv: "bpm_inv b"
  note R = bpm_inv_resident [OF inv Some]
  show ?thesis
  proof (cases "p = INVALID_PAGE_ID \<or> pin_count (pages b ! f) > 0")
    case True
    then show ?thesis using inv Some by (auto simp add: DeletePageImpl_def Let_def)
  next
    case False
    show ?thesis
    proof (rule bpm_inv_step [OF inv R(1), where pg = "\<lparr> data = zeroed, page_id = INVALID_PAGE_ID, pin_count = 0, is_dirty = False \<rparr>"])
    qed (use Some False R in \<open>auto simp: DeletePageImpl_def Let_def Pin_set Pin_distinct\<close>)
  qed
qed

lemma find_replacement_None:
  "find_replacement b = (None, b1) \<Longrightarrow> b1 = b \<and> free_list b = [] \<and> replacer b = []"
  by (auto simp: find_replacement_def Victim_def split: if_splits)

lemma find_replacement_Some:
  assumes inv: "bpm_inv b" and fr: "find_replacement b = (Some f, b1)"
  shows "f < pool_size b" and "pin_count (pages b ! f) = 0"
    and "pages b1 = pages b" and "page_table b1 = page_table b" and "pool_size b1 = pool_size b"
    and "distinct (free_list b1)" and "distinct (replacer b1)"
    and "set (free_list b1) \<inter> set (replacer b1) = {}"
    and "f \<notin> set (free_list b1)" and "f \<notin> set (replacer b1)"
    and "\<forall>g. g \<noteq> f \<longrightarrow> (g \<in> set (free_list b1) \<longleftrightarrow> g \<in> set (free_list b))"
    and "\<forall>g. g \<noteq> f \<longrightarrow> (g \<in> set (replacer b1) \<longleftrightarrow> g \<in> set (replacer b))"
    and "\<forall>q. page_table b q = Some f \<longrightarrow> page_id (pages b ! f) = q"
proof -
  note D = bpm_invD [OF inv]
  show "\<forall>q. page_table b q = Some f \<longrightarrow> page_id (pages b ! f) = q" using D(7) by blast
  show "pages b1 = pages b" "page_table b1 = page_table b" "pool_size b1 = pool_size b"
    using fr by (auto simp: find_replacement_def Victim_def split: if_splits)
  show "f < pool_size b" "pin_count (pages b ! f) = 0"
    using fr D(3) [of f] D(5) [of f]
    by (auto simp: find_replacement_def Victim_def split: if_splits)
  show "distinct (free_list b1)" "distinct (replacer b1)"
    using fr D(2,4) by (auto simp: find_replacement_def Victim_def distinct_butlast split: if_splits)
  have sets: "set (free_list b1) = set (free_list b) - {f} \<and> set (replacer b1) = set (replacer b) - {f}"
  proof (cases "free_list b = []")
    case True
    then have r: "replacer b \<noteq> []" "f = last (replacer b)" "replacer b1 = butlast (replacer b)"
       "free_list b1 = []"
      using fr by (auto simp: find_replacement_def Victim_def split: if_splits)
    show ?thesis using True r butlast_set [OF D(4) r(1)] by simp
  next
    case False
    then have r: "f = last (free_list b)" "free_list b1 = butlast (free_list b)"
       "replacer b1 = replacer b"
      using fr by (auto simp: find_replacement_def Victim_def split: if_splits)
    have "f \<in> set (free_list b)" using r(1) False by simp
    hence "f \<notin> set (replacer b)" using D(6) by blast
    then show ?thesis using False r butlast_set [OF D(2) False] by simp
  qed
  then show "set (free_list b1) \<inter> set (replacer b1) = {}" "f \<notin> set (free_list b1)"
    "f \<notin> set (replacer b1)"
    "\<forall>g. g \<noteq> f \<longrightarrow> (g \<in> set (free_list b1) \<longleftrightarrow> g \<in> set (free_list b))"
    "\<forall>g. g \<noteq> f \<longrightarrow> (g \<in> set (replacer b1) \<longleftrightarrow> g \<in> set (replacer b))"
    using D(6) by auto
qed

lemma replace_in_table_fields:
  "pages (replace_in_table f p b) = pages b" "pool_size (replace_in_table f p b) = pool_size b"
  "replacer (replace_in_table f p b) = replacer b" "free_list (replace_in_table f p b) = free_list b"
  "disk_manager (replace_in_table f p b) = disk_manager b"
  "page_table (replace_in_table f p b) = ((page_table b)(page_id (pages b ! f) := None))(p \<mapsto> f)"
  by (auto simp: replace_in_table_def Let_def)

lemma bpm_inv_Fetch: "bpm_inv b \<Longrightarrow> bpm_inv (snd (FetchPageImpl p b))"
proof (cases "page_table b p")
  case (Some f)
  assume "bpm_inv b"
  then show ?thesis using Some by (rule bpm_inv_Fetch_resident)
next
  case None
  assume inv: "bpm_inv b"
  obtain fo b1 where fr: "find_replacement b = (fo, b1)" by (cases "find_replacement b")
  show ?thesis
  proof (cases fo)
    case None
    with fr have "b1 = b" using find_replacement_None by blast
    then show ?thesis using inv fr None \<open>page_table b p = None\<close>
      by (simp add: FetchPageImpl_def)
  next
    case (Some f)
    note F = find_replacement_Some [OF inv fr [unfolded Some]]
    show ?thesis
    proof (rule bpm_inv_step [OF inv F(1), where pg = "\<lparr> data = disk_pages (disk_manager b1) p, page_id = p, pin_count = 1, is_dirty = False \<rparr>"])
    qed (use \<open>page_table b p = None\<close> fr Some F in \<open>auto simp: FetchPageImpl_def Let_def
          replace_in_table_fields ReadPage_def Pin_def split: prod.splits if_splits\<close>)
  qed
qed

lemma bpm_inv_New: "bpm_inv b \<Longrightarrow> bpm_inv (snd (snd (NewPageImpl b)))"
proof -
  assume inv: "bpm_inv b"
  obtain fo b1 where fr: "find_replacement b = (fo, b1)" by (cases "find_replacement b")
  show ?thesis
  proof (cases fo)
    case None
    with fr have "b1 = b" using find_replacement_None by blast
    then show ?thesis using inv fr None by (simp add: NewPageImpl_def)
  next
    case (Some f)
    note F = find_replacement_Some [OF inv fr [unfolded Some]]
    show ?thesis
    proof (rule bpm_inv_step [OF inv F(1), where pg = "\<lparr> data = zeroed, page_id = next_alloc (disk_manager b1), pin_count = 1, is_dirty = False \<rparr>"])
    qed (use fr Some F in \<open>auto simp: NewPageImpl_def Let_def
          replace_in_table_fields AllocatePage_def Pin_def split: prod.splits if_splits\<close>)
  qed
qed

lemma bpm_inv_flush_frames: "bpm_inv b \<Longrightarrow> bpm_inv (flush_frames fs b)"
  by (induction fs arbitrary: b) (auto simp: bpm_inv_Flush)

lemma bpm_inv_Write: "bpm_inv b \<Longrightarrow> bpm_inv (apply_op (WriteData f d) b)"
proof (cases "f < pool_size b")
  case True
  assume inv: "bpm_inv b"
  note D = bpm_invD [OF inv]
  show ?thesis
  proof (rule bpm_inv_step [OF inv True, where pg = "(pages b ! f)\<lparr> data := d \<rparr>"])
  qed (use D True in \<open>auto\<close>)
next
  case False
  assume inv: "bpm_inv b"
  then show ?thesis using False bpm_invD(1) [OF inv] by (simp add: list_update_beyond)
qed

lemma bpm_inv_apply_op: "bpm_inv b \<Longrightarrow> bpm_inv (apply_op op b)"
  by (cases op) (simp_all add: bpm_inv_Fetch bpm_inv_Unpin bpm_inv_Flush bpm_inv_New
      bpm_inv_Delete bpm_inv_flush_frames FlushAllPagesImpl_def bpm_inv_Write del: apply_op.simps(7))

lemma reachable_inv: "reachable b \<Longrightarrow> bpm_inv b"
  by (induction rule: reachable.induct) (simp_all add: bpm_inv_init bpm_inv_apply_op)

section \<open>Pin counts below the overflow\<close>


















section \<open>Properties of the buffer pool operations\<close>

text \<open>
  Claim C7. For every page id \<open>p\<close> and flag \<open>d\<close>: \<open>UnpinPage(p, d)\<close> returns false and
  changes nothing when \<open>p\<close> is not in the page table. Otherwise (the frame being a
  frame of the pool) it returns true, decrements the frame's pin count if that count was
  positive, calls \<open>replacer.Unpin\<close> on the frame exactly when the count reaches 0 (that
  is, when it was 1), and ORs \<open>d\<close> into the dirty bit, so a dirty bit that is set stays
  set; nothing else changes.
\<close>

theorem UnpinPageImpl_spec:
  "(page_table b p = None \<longrightarrow> UnpinPageImpl p d b = (False, b))
   \<and> (\<forall>f. page_table b p = Some f \<and> f < length (pages b) \<longrightarrow>
        fst (UnpinPageImpl p d b) = True
      \<and> pin_count (pages (snd (UnpinPageImpl p d b)) ! f) =
          (if pin_count (pages b ! f) > 0 then pin_count (pages b ! f) - 1 else pin_count (pages b ! f))
      \<and> replacer (snd (UnpinPageImpl p d b)) =
          (if pin_count (pages b ! f) = 1 then Unpin f (replacer b) else replacer b)
      \<and> is_dirty (pages (snd (UnpinPageImpl p d b)) ! f) = (is_dirty (pages b ! f) \<or> d)
      \<and> (is_dirty (pages b ! f) \<longrightarrow> is_dirty (pages (snd (UnpinPageImpl p d b)) ! f))
      \<and> data (pages (snd (UnpinPageImpl p d b)) ! f) = data (pages b ! f)
      \<and> page_id (pages (snd (UnpinPageImpl p d b)) ! f) = page_id (pages b ! f)
      \<and> (\<forall>g. g \<noteq> f \<longrightarrow> pages (snd (UnpinPageImpl p d b)) ! g = pages b ! g)
      \<and> length (pages (snd (UnpinPageImpl p d b))) = length (pages b)
      \<and> page_table (snd (UnpinPageImpl p d b)) = page_table b
      \<and> free_list (snd (UnpinPageImpl p d b)) = free_list b
      \<and> disk_manager (snd (UnpinPageImpl p d b)) = disk_manager b
      \<and> pool_size (snd (UnpinPageImpl p d b)) = pool_size b)"
  by (auto simp: UnpinPageImpl_def Let_def split: prod.splits if_splits)

theorem UnpinPageImpl_spec_witness:
  "page_table ex_pool 8 = None \<and> UnpinPageImpl 8 True ex_pool = (False, ex_pool)
   \<and> page_table ex_pool 7 = Some 0 \<and> 0 < length (pages ex_pool)
   \<and> fst (UnpinPageImpl 7 False ex_pool) = True
   \<and> pin_count (pages (snd (UnpinPageImpl 7 False ex_pool)) ! 0) = 0
   \<and> replacer (snd (UnpinPageImpl 7 False ex_pool)) = [0, 1]
   \<and> is_dirty (pages (snd (UnpinPageImpl 7 False ex_pool)) ! 0)"
proof -
  have h: "page_table ex_pool 8 = None" "page_table ex_pool 7 = Some 0" "0 < length (pages ex_pool)"
    "pin_count (pages ex_pool ! 0) = 1" "is_dirty (pages ex_pool ! 0)" "replacer ex_pool = [1]"
    by (simp_all add: ex_pool_def)
  show ?thesis
    using h UnpinPageImpl_spec [of ex_pool 8 True] UnpinPageImpl_spec [of ex_pool 7 False]
    by (simp add: Unpin_def)
qed


text \<open>
  Claim C8. \<open>DeletePage(p)\<close> returns true and changes nothing when \<open>p\<close> is
  \<open>INVALID_PAGE_ID\<close> or not in the page table; when \<open>p\<close> is resident with a positive
  pin count it returns false and changes nothing; otherwise it writes the frame back if
  dirty, deallocates \<open>p\<close>, removes \<open>p\<close> from the page table and the frame from the
  replacer, resets the frame, pushes the frame at the back of the free list and returns
  true.
\<close>

theorem DeletePageImpl_spec:
  "((p = INVALID_PAGE_ID \<or> page_table b p = None) \<longrightarrow> DeletePageImpl p b = (True, b))
   \<and> (\<forall>f. p \<noteq> INVALID_PAGE_ID \<and> page_table b p = Some f \<and> pin_count (pages b ! f) > 0 \<longrightarrow>
          DeletePageImpl p b = (False, b))
   \<and> (\<forall>f. p \<noteq> INVALID_PAGE_ID \<and> page_table b p = Some f \<and> f < length (pages b)
          \<and> \<not> pin_count (pages b ! f) > 0 \<longrightarrow>
        fst (DeletePageImpl p b) = True
      \<and> disk_manager (snd (DeletePageImpl p b)) =
          DeallocatePage p
            (if is_dirty (pages b ! f)
             then WritePage (page_id (pages b ! f)) (data (pages b ! f)) (disk_manager b)
             else disk_manager b)
      \<and> page_table (snd (DeletePageImpl p b)) = (page_table b)(p := None)
      \<and> replacer (snd (DeletePageImpl p b)) = Pin f (replacer b)
      \<and> (distinct (replacer b) \<longrightarrow> f \<notin> set (replacer (snd (DeletePageImpl p b))))
      \<and> pages (snd (DeletePageImpl p b)) ! f = new_Page
      \<and> (\<forall>g. g \<noteq> f \<longrightarrow> pages (snd (DeletePageImpl p b)) ! g = pages b ! g)
      \<and> length (pages (snd (DeletePageImpl p b))) = length (pages b)
      \<and> free_list (snd (DeletePageImpl p b)) = free_list b @ [f]
      \<and> pool_size (snd (DeletePageImpl p b)) = pool_size b)"
  by (auto simp: DeletePageImpl_def Let_def new_Page_def Pin_set)

theorem DeletePageImpl_spec_witness:
  "page_table ex_pool 8 = None \<and> DeletePageImpl 8 ex_pool = (True, ex_pool)
   \<and> 7 \<noteq> INVALID_PAGE_ID \<and> page_table ex_pool 7 = Some 0 \<and> pin_count (pages ex_pool ! 0) > 0
   \<and> DeletePageImpl 7 ex_pool = (False, ex_pool)
   \<and> 9 \<noteq> INVALID_PAGE_ID \<and> page_table ex_pool 9 = Some 1 \<and> 1 < length (pages ex_pool)
   \<and> \<not> pin_count (pages ex_pool ! 1) > 0 \<and> distinct (replacer ex_pool)
   \<and> fst (DeletePageImpl 9 ex_pool) = True
   \<and> disk_log (disk_manager (snd (DeletePageImpl 9 ex_pool))) = [DeallocatePageCall 9]
   \<and> page_table (snd (DeletePageImpl 9 ex_pool)) 9 = None
   \<and> replacer (snd (DeletePageImpl 9 ex_pool)) = []
   \<and> pages (snd (DeletePageImpl 9 ex_pool)) ! 1 = new_Page
   \<and> free_list (snd (DeletePageImpl 9 ex_pool)) = [1]"
proof -
  have h: "page_table ex_pool 8 = None" "7 \<noteq> INVALID_PAGE_ID" "page_table ex_pool 7 = Some 0"
    "pin_count (pages ex_pool ! 0) > 0" "9 \<noteq> INVALID_PAGE_ID" "page_table ex_pool 9 = Some 1"
    "1 < length (pages ex_pool)" "\<not> pin_count (pages ex_pool ! 1) > 0" "distinct (replacer ex_pool)"
    "\<not> is_dirty (pages ex_pool ! 1)" "replacer ex_pool = [1]" "free_list ex_pool = []"
    "disk_manager ex_pool = new_DiskManager"
    by (simp_all add: ex_pool_def INVALID_PAGE_ID_def)
  show ?thesis
    using h DeletePageImpl_spec [of 8 ex_pool] DeletePageImpl_spec [of 7 ex_pool]
      DeletePageImpl_spec [of 9 ex_pool]
    by (simp add: Pin_def DeallocatePage_def new_DiskManager_def)
qed



lemmas bpm_eval = new_BufferPoolManager_def new_DiskManager_def new_Page_def
  FetchPageImpl_def NewPageImpl_def UnpinPageImpl_def DeletePageImpl_def FlushPageImpl_def
  find_replacement_def replace_in_table_def Victim_def Pin_def Unpin_def
  AllocatePage_def ReadPage_def WritePage_def DeallocatePage_def Let_def




lemma ex_unpinned_eq:
  "ex_unpinned = \<lparr> pool_size = 2,
       pages = [new_Page, \<lparr> data = zeroed, page_id = 0, pin_count = 0, is_dirty = False \<rparr>],
       page_table = [0 \<mapsto> 1], replacer = [1], free_list = [0],
       disk_manager = \<lparr> disk_pages = (\<lambda>_. zeroed), next_alloc = 1,
                         disk_log = [AllocatePageCall 0] \<rparr> \<rparr>"
  by (simp add: ex_unpinned_def bpm_eval INVALID_PAGE_ID_def upt_rec numeral_2_eq_2)


lemma ex_unpinned_reachable: "reachable ex_unpinned"
  unfolding ex_unpinned_def by (intro reachable.intros)














text \<open>
  Claim C10. In every reachable state each frame on the free list holds no page (its page
  id is \<open>INVALID_PAGE_ID\<close>, it is not dirty and not pinned); and \<open>FetchPage\<close> and
  \<open>NewPage\<close> write a page back only when the free list was empty and the frame is a dirty
  victim of the replacer: when the free list is not empty they take its last frame and
  write nothing back.
\<close>

theorem free_frames_hold_no_page:
  assumes "reachable b"
  shows "(\<forall>f \<in> set (free_list b).
            page_id (pages b ! f) = INVALID_PAGE_ID \<and> \<not> is_dirty (pages b ! f)
          \<and> pin_count (pages b ! f) = 0)
   \<and> (\<forall>p. write_calls (disk_manager (snd (FetchPageImpl p b))) =
          (if page_table b p = None \<and> free_list b = [] \<and> replacer b \<noteq> []
              \<and> is_dirty (pages b ! last (replacer b))
           then WritePageCall (page_id (pages b ! last (replacer b)))
                  (data (pages b ! last (replacer b))) # write_calls (disk_manager b)
           else write_calls (disk_manager b)))
   \<and> write_calls (disk_manager (snd (snd (NewPageImpl b)))) =
          (if free_list b = [] \<and> replacer b \<noteq> [] \<and> is_dirty (pages b ! last (replacer b))
           then WritePageCall (page_id (pages b ! last (replacer b)))
                  (data (pages b ! last (replacer b))) # write_calls (disk_manager b)
           else write_calls (disk_manager b))
   \<and> (\<forall>p. free_list b \<noteq> [] \<and> page_table b p = None \<longrightarrow>
          fst (FetchPageImpl p b) = Some (last (free_list b)))
   \<and> (free_list b \<noteq> [] \<longrightarrow> fst (NewPageImpl b) = Some (last (free_list b)))"
proof -
  have inv: "bpm_inv b" using assms by (rule reachable_inv)
  have 1: "\<forall>f \<in> set (free_list b).
            page_id (pages b ! f) = INVALID_PAGE_ID \<and> \<not> is_dirty (pages b ! f)
          \<and> pin_count (pages b ! f) = 0"
    using bpm_invD(3) [OF inv] by blast
  have fr: "write_calls (disk_manager (snd (find_replacement b))) =
          (if free_list b = [] \<and> replacer b \<noteq> [] \<and> is_dirty (pages b ! last (replacer b))
           then WritePageCall (page_id (pages b ! last (replacer b)))
                  (data (pages b ! last (replacer b))) # write_calls (disk_manager b)
           else write_calls (disk_manager b))"
    by (simp add: find_replacement_def Victim_def write_calls_def WritePage_def)
  have 2: "write_calls (disk_manager (snd (FetchPageImpl p b))) =
          (if page_table b p = None then write_calls (disk_manager (snd (find_replacement b)))
           else write_calls (disk_manager b))" for p
    by (cases "find_replacement b")
       (auto simp: FetchPageImpl_def Let_def write_calls_def ReadPage_def replace_in_table_def
             split: option.splits prod.splits)
  have 3: "write_calls (disk_manager (snd (snd (NewPageImpl b)))) =
          write_calls (disk_manager (snd (find_replacement b)))"
    by (cases "find_replacement b")
       (auto simp: NewPageImpl_def Let_def write_calls_def AllocatePage_def replace_in_table_def
             split: option.splits prod.splits)
  have 4: "free_list b \<noteq> [] \<Longrightarrow> page_table b p = None \<Longrightarrow>
          fst (FetchPageImpl p b) = Some (last (free_list b))" for p
    by (simp add: FetchPageImpl_def find_replacement_def Let_def split: prod.splits)
  have 5: "free_list b \<noteq> [] \<Longrightarrow> fst (NewPageImpl b) = Some (last (free_list b))"
    by (simp add: NewPageImpl_def find_replacement_def Let_def split: prod.splits)
  show ?thesis using 1 4 5 unfolding 2 3 fr by auto
qed

theorem free_frames_hold_no_page_witness:
  "reachable ex_unpinned \<and> 0 \<in> set (free_list ex_unpinned)
   \<and> page_id (pages ex_unpinned ! 0) = INVALID_PAGE_ID \<and> \<not> is_dirty (pages ex_unpinned ! 0)
   \<and> pin_count (pages ex_unpinned ! 0) = 0
   \<and> free_list ex_unpinned \<noteq> [] \<and> page_table ex_unpinned 4 = None
   \<and> fst (FetchPageImpl 4 ex_unpinned) = Some 0
   \<and> write_calls (disk_manager (snd (FetchPageImpl 4 ex_unpinned))) = []
   \<and> fst (NewPageImpl ex_unpinned) = Some 0
   \<and> write_calls (disk_manager (snd (snd (NewPageImpl ex_unpinned)))) = []"
proof -
  have h: "0 \<in> set (free_list ex_unpinned)" "free_list ex_unpinned \<noteq> []"
    "page_table ex_unpinned 4 = None" "last (free_list ex_unpinned) = 0"
    "write_calls (disk_manager ex_unpinned) = []"
    by (simp_all add: ex_unpinned_eq write_calls_def)
  show ?thesis using h ex_unpinned_reachable free_frames_hold_no_page [OF ex_unpinned_reachable]
    by simp
qed

section \<open>Evaluating runs of the index\<close>

text \<open>Concrete runs are evaluated by rewriting with the definitions. The congruence
  rules keep the simplifier out of a continuation until the value it is applied to is
  known, so that a run is evaluated in program order; for the same reason a
  continuation that takes a pair is rewritten to take it apart with \<open>fst\<close> and \<open>snd\<close>.\<close>

lemma then_do_Inr: "then_do (Inr x) k = k x"
  by (simp add: then_do_def)

lemma then_do_Inl: "then_do (Inl e) k = Inl e"
  by (simp add: then_do_def)

lemma then_do_weak_cong: "m = m' \<Longrightarrow> then_do m k = then_do m' k"
  by simp

lemma case_prod_weak_cong: "p = p' \<Longrightarrow> case_prod f p = case_prod f p'"
  by simp

lemma case_prod_Let: "case_prod f = (\<lambda>p. Let p (\<lambda>q. f (fst q) (snd q)))"
  by (simp add: fun_eq_iff split_def)

lemma upt_numeral: "[i..<numeral n] = (if i < numeral n then i # [Suc i..<numeral n] else [])"
  by (rule upt_rec)

lemmas FindLeafPage_loop_numeral =
  FindLeafPage_loop.simps(2) [of "pred_numeral k", folded numeral_eq_Suc] for k

lemmas InsertIntoParent_numeral =
  InsertIntoParent.simps(2) [of "pred_numeral k", folded numeral_eq_Suc] for k

lemmas CoalesceOrRedistribute_numeral =
  CoalesceOrRedistribute.simps(2) [of "pred_numeral k", folded numeral_eq_Suc] for k

lemmas page_defs =
  c_assert_def c_div_def slot_def set_slot_def get_at_def put_at_def
  entries_def IsLeafPage_def IsRootPage_def IncreaseSize_def GetMinSize_def
  Internal_Init_def Internal_KeyAt_def Internal_SetKeyAt_def Internal_KeyIndex_def
  Internal_ValueIndex_def Internal_ValueAt_def Internal_SetValueAt_def Internal_Lookup_def
  PopulateNewRoot_def shift_right_def InsertNodeAfter_def shift_left_def Internal_Remove_def
  RemoveAndReturnOnlyChild_def tree_page_def set_tree_page_def SetParentPageId_def SetSize_def
  FetchPage_assert_def FetchPage_deref_def NewPage_assert_def int_range_def
  Internal_MoveHalfTo_def Internal_MoveAllTo_def CopyLastFrom_def update_parent_key_def
  Internal_MoveFirstToEndOf_def CopyFirstFrom_def Internal_MoveLastToFrontOf_def
  Leaf_Init_def Leaf_KeyAt_def Leaf_Lookup_def Leaf_Insert_def Leaf_RemoveAndDeleteRecord_def
  Leaf_MoveHalfTo_def Leaf_MoveAllTo_def Leaf_update_separator_def Leaf_MoveFirstToEndOf_def
  Leaf_MoveLastToFrontOf_def InsertRecord_def UpdateRecord_def GetRootId_def

lemmas pool_defs =
  FetchPageImpl_def NewPageImpl_def UnpinPageImpl_def DeletePageImpl_def
  find_replacement_def replace_in_table_def Victim_def Pin_def Unpin_def
  AllocatePage_def ReadPage_def WritePage_def DeallocatePage_def
  INVALID_PAGE_ID_def HEADER_PAGE_ID_def zeroed_def new_Page_def wrap_int32_def

lemmas tree_defs =
  FindLeafPage_loop_numeral InsertIntoParent_numeral CoalesceOrRedistribute_numeral
  Coalesce.simps move_entries_loop.simps run_ops.simps
  new_BPlusTree_def IsEmpty_def UpdateRootPageId_def FindLeafPage_def GetValue_def
  StartNewTree_def Split_def InsertIntoLeaf_def Insert_def FindSibling_def Redistribute_def
  AdjustRoot_def Remove_def ins_keys_def page_view_def header_root_def find_value_def

lemmas tree_eval =
  then_do_Inr then_do_Inl upt_numeral Let_def
  tree_defs [unfolded case_prod_Let] page_defs [unfolded case_prod_Let]
  pool_defs [unfolded case_prod_Let]

lemmas raw_simps = move_entries_loop.simps(2) run_ops.simps(2)

lemmas eval_cong = then_do_weak_cong let_weak_cong case_prod_weak_cong

lemma then_do_eq_Inr: "r = Inr x \<Longrightarrow> k x = y \<Longrightarrow> then_do r k = y"
  by (simp add: then_do_def)

lemma pool_with_header_16:
  "pool_with_header 16 =
     \<lparr> pool_size = 16,
       pages = [new_Page, new_Page, new_Page, new_Page, new_Page, new_Page, new_Page, new_Page,
                new_Page, new_Page, new_Page, new_Page, new_Page, new_Page, new_Page,
                \<lparr> data = zeroed, page_id = 0, pin_count = 1, is_dirty = False \<rparr>],
       page_table = [0 \<mapsto> 15], replacer = [],
       free_list = [0, 1, 2, 3, 4, 5, 6, 7, 8, 9, 10, 11, 12, 13, 14],
       disk_manager = \<lparr> disk_pages = \<lambda>_. zeroed, next_alloc = 1,
                         disk_log = [AllocatePageCall 0] \<rparr> \<rparr>"
proof -
  have u: "[0 ..< 16] = [0, 1, 2, 3, 4, 5, 6, 7, 8, 9, 10, 11, 12, 13, 14, 15]"
    by (simp add: upt_rec)
  have r: "replicate 16 new_Page =
      [new_Page, new_Page, new_Page, new_Page, new_Page, new_Page, new_Page, new_Page,
       new_Page, new_Page, new_Page, new_Page, new_Page, new_Page, new_Page, new_Page]"
    by (simp add: numeral_eq_Suc)
  show ?thesis
    unfolding pool_with_header_def new_BufferPoolManager_def new_DiskManager_def u r
    by (simp add: NewPageImpl_def find_replacement_def replace_in_table_def AllocatePage_def
          Pin_def Let_def new_Page_def INVALID_PAGE_ID_def)
qed

lemmas run_eval = tree_eval empty_index_def pool_with_header_16

section \<open>Splitting an internal page\<close>

text \<open>\<open>MoveHalfTo\<close> writes the recipient's slots with \<open>SetKeyAt\<close> and \<open>SetValueAt\<close>
  before it sets the recipient's size, and both check \<open>index < GetSize()\<close>: with
  assertions compiled in, an iteration of the loop whose target slot is not below the
  recipient's size stops at the assertion.\<close>

lemma move_entries_loop_asserts:
  assumes "0 \<le> i" and "cur_size (tree_page b recipient) \<le> i + off"
  shows "move_entries_loop False this recipient off rp (i # rest) b = Inl AssertionFailed"
  using assms by (simp add: get_at_def Internal_SetKeyAt_def c_assert_def then_do_def)

text \<open>
  Claim C6 (a defect of the code). The claim says that a split moves the upper
  \<open>ceil((max_size + 1) / 2)\<close> entries into the new page and re-parents their children. In
  a build with assertions no entry is moved: for every internal page (with a
  non-negative \<open>max_size\<close>) and every recipient whose size is 0, as \<open>Split\<close> leaves the
  new page after \<open>Init\<close>, \<open>MoveHalfTo\<close> ends in a failed assertion.
\<close>

theorem Internal_MoveHalfTo_assertion_fails:
  assumes "0 \<le> max_size (tree_page b this)" and "cur_size (tree_page b recipient) = 0"
  shows "Internal_MoveHalfTo False this recipient b = Inl AssertionFailed"
proof -
  define total where "total = max_size (tree_page b this) + 1"
  have t: "1 \<le> total" using assms(1) by (simp add: total_def)
  have c: "0 \<le> c_div total 2" "c_div total 2 < total"
    using t by (auto simp: c_div_def sgn_if)
  have r: "int_range (c_div total 2) total =
      c_div total 2 # map (\<lambda>k. c_div total 2 + int k) [1 ..< nat (total - c_div total 2)]"
    using c by (simp add: int_range_def upt_rec [of 0])
  have l: "move_entries_loop False this recipient (- c_div total 2) rp
             (int_range (c_div total 2) total) b = Inl AssertionFailed" for rp
    unfolding r using c(1) assms(2) by (intro move_entries_loop_asserts) simp_all
  show ?thesis
    unfolding Internal_MoveHalfTo_def total_def [symmetric] Let_def
    by (simp add: l c_assert_def then_do_def)
qed

theorem Internal_MoveHalfTo_assertion_fails_witness:
  "0 \<le> max_size (tree_page ex_split_pool 0) \<and> cur_size (tree_page ex_split_pool 1) = 0
   \<and> cur_size (tree_page ex_split_pool 0) = max_size (tree_page ex_split_pool 0) + 1
   \<and> Internal_MoveHalfTo False 0 1 ex_split_pool = Inl AssertionFailed"
proof -
  have h: "0 \<le> max_size (tree_page ex_split_pool 0)" "cur_size (tree_page ex_split_pool 1) = 0"
    "cur_size (tree_page ex_split_pool 0) = max_size (tree_page ex_split_pool 0) + 1"
    by (simp_all add: ex_split_pool_def tree_page_def Internal_Init_def zeroed_def)
  show ?thesis using h Internal_MoveHalfTo_assertion_fails [OF h(1,2)] by simp
qed

text \<open>With \<open>NDEBUG\<close> the split of the example page does what the claim says: the old page
  keeps the lower two of its five entries, the new page gets the upper three, the three
  moved children have the new page as parent and are unpinned (pin count 0) and dirty,
  the two others are untouched.\<close>

lemma Internal_MoveHalfTo_ndebug_example:
  "split_view (Internal_MoveHalfTo True 0 1 ex_split_pool) =
     Inr ((2, [(0, 1), (20, 2)]), (3, [(30, 3), (40, 4), (50, 5)]),
          [(10, 0, False), (10, 0, False), (11, 0, True), (11, 0, True), (11, 0, True)],
          [6, 5, 4, 3, 2])"
  by (simp del: raw_simps
        add: split_view_def ex_split_pool_def ex_leaf_def new_DiskManager_def tree_eval
        cong: eval_cong)

section \<open>The scenarios of the specification\<close>

lemma run_ops_append:
  "run_ops fuel ndebug (xs @ ys) t = then_do (run_ops fuel ndebug xs t) (run_ops fuel ndebug ys)"
proof (induction xs arbitrary: t)
  case Nil
  then show ?case by (simp add: then_do_def)
next
  case (Cons x xs)
  then show ?case by (cases x) (simp_all add: then_do_def split: sum.splits prod.splits)
qed

lemma run_aborts_append:
  "run_ops fuel ndebug xs t = Inl e \<Longrightarrow> run_ops fuel ndebug (xs @ ys) t = Inl e"
  by (simp add: run_ops_append then_do_def)

lemma lookup_afterI:
  "run_ops fuel ndebug ops t = Inr t1 \<Longrightarrow> find_value fuel ndebug t1 k = r \<Longrightarrow>
   lookup_after fuel ndebug ops t k = r"
  by (simp add: lookup_after_def then_do_def)




lemma map_lookup_after:
  "run_ops fuel ndebug ops t = Inr t1 \<Longrightarrow>
   map (lookup_after fuel ndebug ops t) ks = map (find_value fuel ndebug t1) ks"
  by (simp add: lookup_after_def then_do_def)



lemma root_afterI:
  "run_ops fuel ndebug ops t = Inr t1 \<Longrightarrow>
   root_after fuel ndebug ops t = Inr (IsEmpty t1, root_page_id t1, header_root t1)"
  by (simp add: root_after_def then_do_def)

lemma lookup_after_aborts:
  "run_ops fuel ndebug ops t = Inl e \<Longrightarrow> lookup_after fuel ndebug ops t k = Inl e"
  by (simp add: lookup_after_def then_do_def)

lemma root_after_aborts:
  "run_ops fuel ndebug ops t = Inl e \<Longrightarrow> root_after fuel ndebug ops t = Inl e"
  by (simp add: root_after_def then_do_def)

section \<open>Runs that split an internal page\<close>

text \<open>With \<open>leaf_max = 4\<close> and \<open>internal_max = 5\<close>, twelve ascending inserts fill the root
  (five children); the thirteenth splits the last leaf, the root gets a sixth entry and
  is split by \<open>MoveHalfTo\<close>. With \<open>leaf_max = 2\<close> and \<open>internal_max = 3\<close> six inserts give
  a tree of three levels; removing key 1 then merges the two leftmost leaves, their
  parent (page 3) underflows and borrows from its right sibling (page 6), with the dummy
  key of slot 0 of the root passed as the separator.\<close>

lemma run_12_inserts:
  "\<exists>t. run_ops 10 False (ins_keys [1, 2, 3, 4, 5, 6, 7, 8, 9, 10, 11, 12]) (empty_index 16 4 5) = Inr t
     \<and> page_view t 3 =
         Some (INTERNAL_PAGE, - 1, 0, [(0, 1), (3, 2), (5, 4), (7, 5), (9, 6)])
     \<and> page_view t 6 = Some (LEAF_PAGE, 3, - 1, [(9, 9), (10, 10), (11, 11), (12, 12)])
     \<and> find_value 10 False t 1 = Inr (Some 1)"
  apply (rule exI)
  apply (intro conjI)
     apply (simp del: raw_simps add: run_eval cong: eval_cong)
    apply (simp del: raw_simps add: run_eval cong: eval_cong)
   apply (simp del: raw_simps add: run_eval cong: eval_cong)
  apply (simp del: raw_simps add: run_eval cong: eval_cong)
  done

lemma run_13_inserts_abort:
  "run_ops 10 False (ins_keys [1, 2, 3, 4, 5, 6, 7, 8, 9, 10, 11, 12, 13]) (empty_index 16 4 5)
     = Inl AssertionFailed"
  by (simp del: raw_simps add: run_eval cong: eval_cong)

lemma run_6_inserts_ndebug:
  "\<exists>t. run_ops 10 True (ins_keys [1, 2, 3, 4, 5, 6]) (empty_index 16 2 3) = Inr t
     \<and> page_view t 7 = Some (INTERNAL_PAGE, - 1, 0, [(0, 3), (3, 6)])
     \<and> page_view t 3 = Some (INTERNAL_PAGE, 7, 0, [(0, 1), (2, 2)])
     \<and> page_view t 6 = Some (INTERNAL_PAGE, 7, 0, [(3, 4), (4, 5), (5, 8)])
     \<and> map (find_value 10 True t) [1, 2, 3, 4, 5, 6] =
         [Inr (Some 1), Inr (Some 2), Inr (Some 3), Inr (Some 4), Inr (Some 5), Inr (Some 6)]"
  apply (rule exI)
  apply (intro conjI)
      apply (simp del: raw_simps add: run_eval cong: eval_cong)
     apply (simp del: raw_simps add: run_eval cong: eval_cong)
    apply (simp del: raw_simps add: run_eval cong: eval_cong)
   apply (simp del: raw_simps add: run_eval cong: eval_cong)
  apply (simp del: raw_simps add: run_eval cong: eval_cong)
  done

lemma run_6_inserts_remove_ndebug:
  "\<exists>t. run_ops 10 True (ins_keys [1, 2, 3, 4, 5, 6] @ [Rem 1]) (empty_index 16 2 3) = Inr t
     \<and> page_view t 7 = Some (INTERNAL_PAGE, - 1, 0, [(4, 3), (3, 6)])
     \<and> page_view t 3 = Some (INTERNAL_PAGE, 7, 0, [(0, 1), (0, 4)])
     \<and> page_view t 6 = Some (INTERNAL_PAGE, 7, 0, [(4, 5), (5, 8)])
     \<and> page_view t 1 = Some (LEAF_PAGE, 3, 4, [(2, 2)])
     \<and> page_view t 4 = Some (LEAF_PAGE, 3, 5, [(3, 3)])
     \<and> map (find_value 10 True t) [1, 2, 3, 4, 5, 6] =
         [Inr None, Inr None, Inr None, Inr (Some 4), Inr (Some 5), Inr (Some 6)]"
  apply (rule exI)
  apply (intro conjI)
        apply (simp del: raw_simps add: run_eval cong: eval_cong)
       apply (simp del: raw_simps add: run_eval cong: eval_cong)
      apply (simp del: raw_simps add: run_eval cong: eval_cong)
     apply (simp del: raw_simps add: run_eval cong: eval_cong)
    apply (simp del: raw_simps add: run_eval cong: eval_cong)
   apply (simp del: raw_simps add: run_eval cong: eval_cong)
  apply (simp del: raw_simps add: run_eval cong: eval_cong)
  done

lemma round_trip_10:
  "root_after 10 False (ins_keys [1, 2, 3, 4, 5, 6, 7, 8, 9, 10]
                          @ rem_keys [10, 9, 8, 7, 6, 5, 4, 3, 2, 1]) (empty_index 16 4 5)
     = Inr (True, - 1, Some (- 1))"
  by (simp del: raw_simps add: root_after_def rem_keys_def run_eval cong: eval_cong)

lemma round_trip_6_ndebug:
  "root_after 10 True (ins_keys [1, 2, 3, 4, 5, 6] @ rem_keys [1, 2, 3, 4, 5, 6])
     (empty_index 16 2 3) = Inr (False, 3, Some 3)"
  by (simp del: raw_simps add: root_after_def rem_keys_def run_eval cong: eval_cong)

text \<open>
  Claim C1 (a defect of the code). The claim says that after every sequence of inserts
  and removes \<open>GetValue(k)\<close> finds exactly the keys inserted and not removed. In a build
  with assertions (\<open>leaf_max = 4\<close>, \<open>internal_max = 5\<close>, 16 frames) the keys 1 to 12 can
  be inserted and found, but inserting key 13 splits the root, an internal page, and the
  run stops at the failed assertion of \<open>MoveHalfTo\<close>. With \<open>NDEBUG\<close> (\<open>leaf_max = 2\<close>,
  \<open>internal_max = 3\<close>) the keys 1 to 6 are all found after their insertion, but after
  \<open>Remove(1)\<close> the keys 2 and 3, which were not removed, are no longer found.
\<close>

theorem GetValue_after_run_fails:
  "lookup_after 10 False (ins_keys [1, 2, 3, 4, 5, 6, 7, 8, 9, 10, 11, 12]) (empty_index 16 4 5) 1
     = Inr (Some 1)
   \<and> lookup_after 10 False (ins_keys [1, 2, 3, 4, 5, 6, 7, 8, 9, 10, 11, 12, 13])
       (empty_index 16 4 5) 1 = Inl AssertionFailed
   \<and> map (lookup_after 10 True (ins_keys [1, 2, 3, 4, 5, 6]) (empty_index 16 2 3))
       [1, 2, 3, 4, 5, 6] =
       [Inr (Some 1), Inr (Some 2), Inr (Some 3), Inr (Some 4), Inr (Some 5), Inr (Some 6)]
   \<and> map (lookup_after 10 True (ins_keys [1, 2, 3, 4, 5, 6] @ [Rem 1]) (empty_index 16 2 3))
       [1, 2, 3, 4, 5, 6] =
       [Inr None, Inr None, Inr None, Inr (Some 4), Inr (Some 5), Inr (Some 6)]"
proof -
  obtain t12 where t12:
    "run_ops 10 False (ins_keys [1, 2, 3, 4, 5, 6, 7, 8, 9, 10, 11, 12]) (empty_index 16 4 5) = Inr t12"
    "find_value 10 False t12 1 = Inr (Some 1)"
    using run_12_inserts by (elim exE conjE) (rule that; assumption)
  obtain t6 where t6:
    "run_ops 10 True (ins_keys [1, 2, 3, 4, 5, 6]) (empty_index 16 2 3) = Inr t6"
    "map (find_value 10 True t6) [1, 2, 3, 4, 5, 6] =
         [Inr (Some 1), Inr (Some 2), Inr (Some 3), Inr (Some 4), Inr (Some 5), Inr (Some 6)]"
    using run_6_inserts_ndebug by (elim exE conjE) (rule that; assumption)
  obtain t7 where t7:
    "run_ops 10 True (ins_keys [1, 2, 3, 4, 5, 6] @ [Rem 1]) (empty_index 16 2 3) = Inr t7"
    "map (find_value 10 True t7) [1, 2, 3, 4, 5, 6] =
         [Inr None, Inr None, Inr None, Inr (Some 4), Inr (Some 5), Inr (Some 6)]"
    using run_6_inserts_remove_ndebug by (elim exE conjE) (rule that; assumption)
  show ?thesis
    unfolding map_lookup_after [OF t6(1)] map_lookup_after [OF t7(1)] t6(2) t7(2)
    using lookup_afterI [OF t12(1) t12(2)] lookup_after_aborts [OF run_13_inserts_abort]
    by simp
qed

text \<open>
  Claim C3 (a defect of the code). The claim says that inserting a set of keys and
  removing them in any order leaves the tree empty, with the invalid root id recorded in
  the header page. That is what happens for the keys 1 to 10 removed in descending order
  (\<open>leaf_max = 4\<close>, \<open>internal_max = 5\<close>, build with assertions). For the keys 1 to 13 the
  run stops at a failed assertion while the last key is inserted. With \<open>NDEBUG\<close>
  (\<open>leaf_max = 2\<close>, \<open>internal_max = 3\<close>), inserting the keys 1 to 6 and removing them in
  ascending order leaves a tree that is not empty: its root is page 3, and so says the
  header page.
\<close>

theorem round_trip_fails:
  "root_after 10 False (ins_keys [1, 2, 3, 4, 5, 6, 7, 8, 9, 10]
                          @ rem_keys [10, 9, 8, 7, 6, 5, 4, 3, 2, 1]) (empty_index 16 4 5)
     = Inr (True, INVALID_PAGE_ID, Some INVALID_PAGE_ID)
   \<and> root_after 10 False (ins_keys [1, 2, 3, 4, 5, 6, 7, 8, 9, 10, 11, 12, 13]
                          @ rem_keys [13, 12, 11, 10, 9, 8, 7, 6, 5, 4, 3, 2, 1])
       (empty_index 16 4 5) = Inl AssertionFailed
   \<and> root_after 10 True (ins_keys [1, 2, 3, 4, 5, 6] @ rem_keys [1, 2, 3, 4, 5, 6])
       (empty_index 16 2 3) = Inr (False, 3, Some 3)"
  using round_trip_10 round_trip_6_ndebug
    root_after_aborts [OF run_aborts_append [OF run_13_inserts_abort]]
  by (simp add: INVALID_PAGE_ID_def)

end
